theory Spec2Isabelle
  imports Main "HOL-Library.AList" "HOL-Library.Char_ord" "HOL-Library.List_Lexorder"
begin

section \<open>Host values: JSON, coercions, serialisation\<close>

text \<open>
  The program is a browser script. The values it reads from an import file and from stored
  JSON text are JSON values. A number is an IEEE 754 double; the model keeps the doubles
  whose value is an integer (click counts, orders and goals), \<open>JNum n\<close> being the double of
  value \<open>n\<close>. An object is the list of its members in enumeration order; \<open>undefined\<close> is
  \<open>None\<close> of \<open>json option\<close>.
\<close>

datatype json =
    JNull
  | JBool bool
  | JNum int
  | JStr string
  | JArr "json list"
  | JObj "(string \<times> json) list"

text \<open>The decimal digits of a natural number.\<close>

definition digit_char :: "nat \<Rightarrow> char" where
  "digit_char d = ''0123456789abcdef'' ! d"

fun digits :: "nat \<Rightarrow> string" where
  "digits n =
     (if n < 10 then [digit_char n]
      else digits (n div 10) @ [digit_char (n mod 10)])"

declare digits.simps [simp del]

text \<open>
  Rounding to a double. Every integer below \<open>2^53\<close> in magnitude is a double. From there on
  a double is a 53-bit significand \<open>q\<close> times a power of two \<open>2^e\<close>, and an integer in
  between is rounded to the nearer of its two neighbours, to the one with the even
  significand when it lies half way. (Integers are never so large here that rounding
  would give \<open>Infinity\<close>: the sum of a finite double and 1 is finite.)
\<close>

fun bit_length :: "nat \<Rightarrow> nat" where
  "bit_length m = (if m = 0 then 0 else Suc (bit_length (m div 2)))"

declare bit_length.simps [simp del]

definition nearest_double :: "nat \<Rightarrow> nat" where
  "nearest_double m =
     (if m < 2 ^ 53 then m
      else (let e = bit_length m - 53; q = m div 2 ^ e; r = m mod 2 ^ e
            in (if 2 * r < 2 ^ e \<or> (2 * r = 2 ^ e \<and> even q) then q else q + 1) * 2 ^ e))"

definition to_double :: "int \<Rightarrow> int" where
  "to_double i =
     (if i < 0 then - int (nearest_double (nat (- i))) else int (nearest_double (nat i)))"

text \<open>
  \<open>Number::toString\<close>, which \<open>String(n)\<close> and \<open>JSON.stringify(n)\<close> apply to a number. It
  writes the fewest significant digits \<open>s\<close> that, followed by \<open>p\<close> zeros, still denote a
  number that rounds to the double \<open>x\<close>; of two such \<open>s\<close> the one nearer to \<open>x\<close>, the even
  one when both are as near. Below \<open>2^53\<close> these are the digits of \<open>x\<close> itself. A number of
  more than 21 digits is written in exponent form.
\<close>

definition candidates :: "nat \<Rightarrow> nat \<Rightarrow> nat list" where
  "candidates x p =
     filter (\<lambda>s. nearest_double (s * 10 ^ p) = x) [x div 10 ^ p, x div 10 ^ p + 1]"

definition closest :: "nat \<Rightarrow> nat \<Rightarrow> nat list \<Rightarrow> nat" where
  "closest x p ss =
     (case ss of
        [s] \<Rightarrow> s
      | [lo, hi] \<Rightarrow>
          (if x - lo * 10 ^ p < hi * 10 ^ p - x then lo
           else if hi * 10 ^ p - x < x - lo * 10 ^ p then hi
           else if even lo then lo else hi)
      | _ \<Rightarrow> 0)"

fun shortest :: "nat \<Rightarrow> nat \<Rightarrow> nat \<times> nat" where
  "shortest x 0 = (x, 0)"
| "shortest x (Suc p) =
     (if candidates x (Suc p) = [] then shortest x p
      else (closest x (Suc p) (candidates x (Suc p)), Suc p))"

definition Number_digits :: "nat \<Rightarrow> string" where
  "Number_digits x =
     (if x < 2 ^ 53 then digits x
      else (case shortest x (length (digits x)) of
              (s, p) \<Rightarrow>
                (let ds = digits s; n = length ds + p
                 in if n \<le> 21 then ds @ replicate p CHR ''0''
                    else (if length ds = 1 then ds else hd ds # CHR ''.'' # tl ds)
                           @ ''e+'' @ digits (n - 1))))"

definition Number_toString :: "int \<Rightarrow> string" where
  "Number_toString i =
     (if i < 0 then CHR ''-'' # Number_digits (nat (- i)) else Number_digits (nat i))"

text \<open>\<open>Array.prototype.join\<close>.\<close>

fun join :: "string \<Rightarrow> string list \<Rightarrow> string" where
  "join sep [] = []"
| "join sep [x] = x"
| "join sep (x # y # ys) = x @ sep @ join sep (y # ys)"

text \<open>JavaScript truthiness (\<open>if (v)\<close>, \<open>!v\<close>, \<open>a && b\<close>).\<close>

fun truthy :: "json \<Rightarrow> bool" where
  "truthy JNull = False"
| "truthy (JBool b) = b"
| "truthy (JNum n) = (n \<noteq> 0)"
| "truthy (JStr s) = (s \<noteq> [])"
| "truthy (JArr xs) = True"
| "truthy (JObj fs) = True"

definition truthy_opt :: "json option \<Rightarrow> bool" where
  "truthy_opt v = (case v of None \<Rightarrow> False | Some x \<Rightarrow> truthy x)"

text \<open>\<open>typeof v === 'object'\<close>: true of \<open>null\<close>, arrays and objects.\<close>

fun typeof_object :: "json \<Rightarrow> bool" where
  "typeof_object JNull = True"
| "typeof_object (JArr xs) = True"
| "typeof_object (JObj fs) = True"
| "typeof_object v = False"

text \<open>
  Reading a named property \<open>v.name\<close> / \<open>v[name]\<close> of a value that is neither \<open>null\<close> nor
  \<open>undefined\<close>. The names this program reads (\<open>water\<close>, \<open>protein\<close>, \<open>goal\<close>, \<open>history\<close>, ...)
  are own properties of parsed objects only; arrays, strings, numbers and booleans have
  none of them. Callers decide what reading a property of \<open>null\<close> does (a TypeError).
\<close>

fun property :: "json \<Rightarrow> string \<Rightarrow> json option" where
  "property (JObj fs) name = map_of fs name"
| "property v name = None"

text \<open>
  \<open>String(v)\<close>, the coercion \<open>localStorage.setItem\<close> applies to its value argument. Inside
  an array \<open>null\<close> renders as the empty string.
\<close>

fun to_String :: "json \<Rightarrow> string"
  and to_String_elems :: "json list \<Rightarrow> string list" where
  "to_String JNull = ''null''"
| "to_String (JBool b) = (if b then ''true'' else ''false'')"
| "to_String (JNum n) = Number_toString n"
| "to_String (JStr s) = s"
| "to_String (JArr xs) = join '','' (to_String_elems xs)"
| "to_String (JObj fs) = ''[object Object]''"
| "to_String_elems [] = []"
| "to_String_elems (x # xs) =
     (case x of JNull \<Rightarrow> [] | _ \<Rightarrow> to_String x) # to_String_elems xs"

text \<open>\<open>JSON.stringify(v)\<close> (compact form), with the escapes of JSON string literals.\<close>

definition escape_char :: "char \<Rightarrow> string" where
  "escape_char c =
     (if c = CHR 0x22 then [CHR 0x5C, CHR 0x22]
      else if c = CHR 0x5C then [CHR 0x5C, CHR 0x5C]
      else if c = CHR 0x08 then [CHR 0x5C, CHR ''b'']
      else if c = CHR 0x0C then [CHR 0x5C, CHR ''f'']
      else if c = CHR 0x0A then [CHR 0x5C, CHR ''n'']
      else if c = CHR 0x0D then [CHR 0x5C, CHR ''r'']
      else if c = CHR 0x09 then [CHR 0x5C, CHR ''t'']
      else if (of_char c :: nat) < 32
        then [CHR 0x5C, CHR ''u'', CHR ''0'', CHR ''0'',
              digit_char (of_char c div 16), digit_char (of_char c mod 16)]
      else [c])"

definition quote :: "string \<Rightarrow> string" where
  "quote s = CHR 0x22 # concat (map escape_char s) @ [CHR 0x22]"

fun stringify :: "json \<Rightarrow> string"
  and stringify_elems :: "json list \<Rightarrow> string list"
  and stringify_members :: "(string \<times> json) list \<Rightarrow> string list" where
  "stringify JNull = ''null''"
| "stringify (JBool b) = (if b then ''true'' else ''false'')"
| "stringify (JNum n) = Number_toString n"
| "stringify (JStr s) = quote s"
| "stringify (JArr xs) = ''['' @ join '','' (stringify_elems xs) @ '']''"
| "stringify (JObj fs) = ''{'' @ join '','' (stringify_members fs) @ ''}''"
| "stringify_elems [] = []"
| "stringify_elems (x # xs) = stringify x # stringify_elems xs"
| "stringify_members [] = []"
| "stringify_members ((k, v) # fs) = (quote k @ '':'' @ stringify v) # stringify_members fs"

text \<open>\<open>String.prototype.padStart(n, c)\<close> with a one-character filler.\<close>

definition padStart :: "nat \<Rightarrow> char \<Rightarrow> string \<Rightarrow> string" where
  "padStart n c s = replicate (n - length s) c @ s"

text \<open>
  \<open>utils.formatDate\<close> on a valid date, given by \<open>getFullYear()\<close>, \<open>getMonth()\<close> (counted
  from 0) and \<open>getDate()\<close>.
\<close>

definition formatDate :: "nat \<Rightarrow> nat \<Rightarrow> nat \<Rightarrow> string" where
  "formatDate fullYear month date =
     digits fullYear @ ''-'' @ padStart 2 CHR ''0'' (digits (month + 1))
       @ ''-'' @ padStart 2 CHR ''0'' (digits date)"

section \<open>Exceptions\<close>

text \<open>
  A statement either completes or throws; what it did to the state before throwing stays
  done. An outcome is the pending exception, if any, with the state reached.
\<close>

datatype js_error = QuotaExceededError | TypeError | Error string

fun message :: "js_error \<Rightarrow> string" where
  "message (Error m) = m"
| "message QuotaExceededError = ''The quota has been exceeded.''"
| "message TypeError = ''Cannot read properties of undefined''"

type_synonym 's outcome = "js_error option \<times> 's"

definition andThen :: "'s outcome \<Rightarrow> ('s \<Rightarrow> 's outcome) \<Rightarrow> 's outcome" where
  "andThen r f = (case r of (None, s) \<Rightarrow> f s | (Some e, s) \<Rightarrow> (Some e, s))"

fun seq :: "('s \<Rightarrow> 's outcome) list \<Rightarrow> 's \<Rightarrow> 's outcome" where
  "seq [] s = (None, s)"
| "seq (step # steps) s = andThen (step s) (seq steps)"

section \<open>localStorage\<close>

text \<open>
  The browser's key-value store: string keys and string values, one value per key, kept
  here in insertion order. A write is refused with a quota error when the store would
  outgrow its capacity; the size of a store is counted the way \<open>storageManager.getUsage\<close>
  counts it (key length plus value length, summed).
\<close>

record storage =
  items :: "(string \<times> string) list"
  quota :: nat

fun usage_of :: "(string \<times> string) list \<Rightarrow> nat" where
  "usage_of [] = 0"
| "usage_of ((key, val) # rest) = length key + length val + usage_of rest"

definition getUsage :: "storage \<Rightarrow> nat" where
  "getUsage ls = usage_of (items ls)"

definition getItem :: "storage \<Rightarrow> string \<Rightarrow> string option" where
  "getItem ls k = map_of (items ls) k"

definition key :: "storage \<Rightarrow> nat \<Rightarrow> string option" where
  "key ls i = (if i < length (items ls) then Some (fst (items ls ! i)) else None)"

definition setItem :: "string \<Rightarrow> string \<Rightarrow> storage \<Rightarrow> storage outcome" where
  "setItem k v ls =
     (let items' = AList.update k v (items ls)
      in if usage_of items' \<le> quota ls then (None, ls\<lparr>items := items'\<rparr>)
         else (Some QuotaExceededError, ls))"

definition clear :: "storage \<Rightarrow> storage" where
  "clear ls = ls\<lparr>items := []\<rparr>"

text \<open>What every reachable store satisfies: one entry per key, within capacity.\<close>

definition storage_ok :: "storage \<Rightarrow> bool" where
  "storage_ok ls = (distinct (map fst (items ls)) \<and> getUsage ls \<le> quota ls)"

section \<open>The page: storage and the toasts shown\<close>

text \<open>
  \<open>utils.showToast(message, type)\<close> is the only signal the operations give to the user;
  the page records every toast shown, in order.
\<close>

type_synonym toast = "string \<times> string"

record app =
  localStorage :: storage
  toasts :: "toast list"

definition showToast :: "string \<Rightarrow> string \<Rightarrow> 'a app_scheme \<Rightarrow> 'a app_scheme" where
  "showToast msg type a = a\<lparr>toasts := toasts a @ [(msg, type)]\<rparr>"

text \<open>Running a storage statement on the page's store.\<close>

definition on_storage :: "(storage \<Rightarrow> storage outcome) \<Rightarrow> 'a app_scheme \<Rightarrow> 'a app_scheme outcome" where
  "on_storage f a = (case f (localStorage a) of (r, ls') \<Rightarrow> (r, a\<lparr>localStorage := ls'\<rparr>))"

section \<open>Export and import of the tracking data\<close>

definition STORAGE_KEYS_THEME :: string where "STORAGE_KEYS_THEME = ''app_theme''"
definition STORAGE_KEYS_LAST_RESET_PREFIX :: string where "STORAGE_KEYS_LAST_RESET_PREFIX = ''lastResetDate_''"
definition STORAGE_KEYS_GOAL_PREFIX :: string where "STORAGE_KEYS_GOAL_PREFIX = ''goal_''"
definition STORAGE_KEYS_INTAKE_PREFIX :: string where "STORAGE_KEYS_INTAKE_PREFIX = ''intake_''"
definition STORAGE_KEYS_HISTORY_PREFIX :: string where "STORAGE_KEYS_HISTORY_PREFIX = ''history_''"
definition STORAGE_KEYS_REMINDER :: string where "STORAGE_KEYS_REMINDER = ''global_reminder''"

text \<open>\<open>localStorage.getItem(k)\<close> as a document leaf: the stored string, or \<open>null\<close>.\<close>

definition stored :: "storage \<Rightarrow> string \<Rightarrow> json" where
  "stored ls k = (case getItem ls k of None \<Rightarrow> JNull | Some s \<Rightarrow> JStr s)"

definition export_document :: "string \<Rightarrow> storage \<Rightarrow> json" where
  "export_document now ls =
     JObj [(''version'', JStr ''2.0''),
           (''exportDate'', JStr now),
           (''water'', JObj [(''goal'', stored ls (STORAGE_KEYS_GOAL_PREFIX @ ''water'')),
                             (''intake'', stored ls (STORAGE_KEYS_INTAKE_PREFIX @ ''water'')),
                             (''history'', stored ls (STORAGE_KEYS_HISTORY_PREFIX @ ''water''))]),
           (''protein'', JObj [(''goal'', stored ls (STORAGE_KEYS_GOAL_PREFIX @ ''protein'')),
                               (''intake'', stored ls (STORAGE_KEYS_INTAKE_PREFIX @ ''protein'')),
                               (''history'', stored ls (STORAGE_KEYS_HISTORY_PREFIX @ ''protein''))]),
           (''workout'', JObj [(''state'', stored ls ''workout_state''),
                               (''count'', stored ls ''workout_count''),
                               (''history'', stored ls ''workout_history'')]),
           (''habits'', JObj [(''data'', stored ls ''habits_data'')]),
           (''settings'', JObj [(''theme'', stored ls STORAGE_KEYS_THEME),
                                (''reminder'', stored ls STORAGE_KEYS_REMINDER)])]"

text \<open>Reading \<open>obj.a.b\<close> where \<open>obj.a\<close> is known to be an object.\<close>

definition property2 :: "json \<Rightarrow> string \<Rightarrow> string \<Rightarrow> json option" where
  "property2 v a b = (case property v a of None \<Rightarrow> None | Some w \<Rightarrow> property w b)"

text \<open>
  \<open>exportData\<close>: \<open>now\<close> is \<open>new Date().toISOString()\<close>. The result is the document handed to
  \<open>JSON.stringify\<close> for the download (\<open>None\<close> when the export is refused) and the page with
  the toast shown; building the download link is left to the browser.
\<close>

definition exportData :: "string \<Rightarrow> 'a app_scheme \<Rightarrow> json option \<times> 'a app_scheme" where
  "exportData now a =
     (let exportData = export_document now (localStorage a)
      in if \<not> truthy_opt (property2 exportData ''water'' ''goal'')
            \<and> \<not> truthy_opt (property2 exportData ''protein'' ''goal'')
            \<and> \<not> truthy_opt (property2 exportData ''habits'' ''data'')
         then (None, showToast ''No tracking data found to export.'' ''error'' a)
         else (Some exportData, showToast ''Data exported successfully!'' ''success'' a))"

definition requiredSections :: "string list" where
  "requiredSections = [''water'', ''protein'']"

definition missingSections :: "json \<Rightarrow> string list" where
  "missingSections importedData =
     filter (\<lambda>section. \<not> truthy_opt (property importedData section)) requiredSections"

text \<open>The first required section that is present but not an object, if any.\<close>

fun invalid_section :: "json \<Rightarrow> string list \<Rightarrow> string option" where
  "invalid_section importedData [] = None"
| "invalid_section importedData (section # rest) =
     (case property importedData section of
        None \<Rightarrow> invalid_section importedData rest
      | Some v \<Rightarrow>
          if truthy v \<and> \<not> typeof_object v then Some section
          else invalid_section importedData rest)"

text \<open>
  \<open>v > "2.0"\<close>: two strings compare by code units; a number or boolean compares
  numerically with 2; an array or object compares by its string form.
\<close>

fun newer_than_2_0 :: "json \<Rightarrow> bool" where
  "newer_than_2_0 (JStr s) = (''2.0'' < s)"
| "newer_than_2_0 (JNum n) = (2 < n)"
| "newer_than_2_0 (JBool b) = False"
| "newer_than_2_0 JNull = False"
| "newer_than_2_0 v = (''2.0'' < to_String v)"

definition availableSpace :: nat where
  "availableSpace = 5 * 1024 * 1024"

text \<open>\<open>importSize > availableSpace * 0.9\<close>, in tenths to stay in the integers.\<close>

definition too_large :: "json \<Rightarrow> bool" where
  "too_large importedData = (10 * length (stringify importedData) > 9 * availableSpace)"

text \<open>
  The backup is a plain object, \<open>{}\<close>, used as a dictionary of strings; it is kept here as
  the list of its own properties in creation order. \<open>backup[k] = v\<close> creates or overwrites
  the own property \<open>k\<close>, for every name but one: \<open>__proto__\<close> is the prototype accessor
  every plain object inherits, and assigning a string to it does nothing.
\<close>

definition assign :: "string \<Rightarrow> string \<Rightarrow> (string \<times> string) list \<Rightarrow> (string \<times> string) list" where
  "assign k v obj = (if k = ''__proto__'' then obj else AList.update k v obj)"

text \<open>
  \<open>Object.keys\<close> lists the own properties that are array indices first, in ascending
  numeric order, then the other names in creation order. An array index is the decimal
  numeral, without leading zeros, of a number below \<open>2^32 - 1\<close>.
\<close>

definition is_digit :: "char \<Rightarrow> bool" where
  "is_digit c = (48 \<le> (of_char c :: nat) \<and> (of_char c :: nat) \<le> 57)"

definition numeral_value :: "string \<Rightarrow> nat" where
  "numeral_value k = foldl (\<lambda>n c. 10 * n + (of_char c - 48)) 0 k"

definition is_array_index :: "string \<Rightarrow> bool" where
  "is_array_index k =
     (k \<noteq> [] \<and> list_all is_digit k \<and> (k = ''0'' \<or> hd k \<noteq> CHR ''0'')
      \<and> numeral_value k < 2 ^ 32 - 1)"

definition own_entries :: "(string \<times> string) list \<Rightarrow> (string \<times> string) list" where
  "own_entries obj =
     sort_key (\<lambda>(k, v). numeral_value k) (filter (\<lambda>(k, v). is_array_index k) obj)
       @ filter (\<lambda>(k, v). \<not> is_array_index k) obj"

text \<open>
  The backup loop: \<open>backup[localStorage.key(i)] = localStorage.getItem(key)\<close> for every
  index.
\<close>

definition make_backup :: "storage \<Rightarrow> (string \<times> string) list" where
  "make_backup ls =
     foldl (\<lambda>backup i.
              case key ls i of
                None \<Rightarrow> backup
              | Some k \<Rightarrow> (case getItem ls k of
                            None \<Rightarrow> backup
                          | Some v \<Rightarrow> assign k v backup))
           [] [0..<length (items ls)]"

text \<open>
  \<open>if (obj.field) localStorage.setItem(key, obj.field)\<close>. Reading a property of
  \<open>undefined\<close> or \<open>null\<close> throws.
\<close>

definition import_field :: "json option \<Rightarrow> string \<Rightarrow> string \<Rightarrow> storage \<Rightarrow> storage outcome" where
  "import_field obj field k ls =
     (case obj of
        None \<Rightarrow> (Some TypeError, ls)
      | Some JNull \<Rightarrow> (Some TypeError, ls)
      | Some v \<Rightarrow>
          (case property v field of
             None \<Rightarrow> (None, ls)
           | Some x \<Rightarrow> if truthy x then setItem k (to_String x) ls else (None, ls)))"

text \<open>The statements of the inner \<open>try\<close> block, in order.\<close>

definition import_writes :: "json \<Rightarrow> storage \<Rightarrow> storage outcome" where
  "import_writes importedData =
     (let water = property importedData ''water'';
          protein = property importedData ''protein'';
          workout = property importedData ''workout'';
          habits = property importedData ''habits'';
          settings = property importedData ''settings''
      in seq
        [import_field water ''goal'' (STORAGE_KEYS_GOAL_PREFIX @ ''water''),
         import_field water ''intake'' (STORAGE_KEYS_INTAKE_PREFIX @ ''water''),
         import_field water ''history'' (STORAGE_KEYS_HISTORY_PREFIX @ ''water''),
         import_field protein ''goal'' (STORAGE_KEYS_GOAL_PREFIX @ ''protein''),
         import_field protein ''intake'' (STORAGE_KEYS_INTAKE_PREFIX @ ''protein''),
         import_field protein ''history'' (STORAGE_KEYS_HISTORY_PREFIX @ ''protein''),
         (\<lambda>ls. if truthy_opt workout
                then seq [import_field workout ''state'' ''workout_state'',
                          import_field workout ''count'' ''workout_count'',
                          import_field workout ''history'' ''workout_history''] ls
                else (None, ls)),
         (\<lambda>ls. if truthy_opt habits then import_field habits ''data'' ''habits_data'' ls
                else (None, ls)),
         (\<lambda>ls. if truthy_opt settings then import_field settings ''theme'' STORAGE_KEYS_THEME ls
                else (None, ls)),
         (\<lambda>ls. if truthy_opt settings then import_field settings ''reminder'' STORAGE_KEYS_REMINDER ls
                else (None, ls))])"

text \<open>
  \<open>Object.keys(backup).forEach(key => localStorage.setItem(key, backup[key]))\<close>, given the
  properties \<open>Object.keys\<close> lists, each with its value.
\<close>

fun restore_backup :: "(string \<times> string) list \<Rightarrow> storage \<Rightarrow> storage outcome" where
  "restore_backup [] ls = (None, ls)"
| "restore_backup ((k, v) # rest) ls = andThen (setItem k v ls) (restore_backup rest)"

text \<open>
  \<open>importData\<close> does its work in \<open>reader.onload\<close>, once the file has passed the size and
  type checks and has been read. This is the body of the handler's outer \<open>try\<close>: \<open>parsed\<close>
  is what \<open>JSON.parse\<close> made of the file (\<open>None\<close> when it threw), \<open>confirmed\<close> the user's
  answer to the confirm dialog.
\<close>

definition importData_try :: "json option \<Rightarrow> bool \<Rightarrow> 'a app_scheme \<Rightarrow> 'a app_scheme outcome" where
  "importData_try parsed confirmed a =
     (case parsed of
        None \<Rightarrow>
          (Some (Error ''File is not valid JSON. Please ensure the file is correctly formatted.''), a)
      | Some importedData \<Rightarrow>
          if \<not> truthy importedData then (Some (Error ''Import file is empty or corrupt.''), a)
          else if length (missingSections importedData) > 0
          then (Some (Error (''Import file is missing required sections: ''
                               @ join '', '' (missingSections importedData) @ ''.'')), a)
          else
            (case invalid_section importedData requiredSections of
               Some section \<Rightarrow>
                 (Some (Error (''Section '' @ [CHR 0x22] @ section @ [CHR 0x22]
                                 @ '' has invalid format.'')), a)
             | None \<Rightarrow>
                 (let a1 = (if (case property importedData ''version'' of
                                   None \<Rightarrow> False
                                 | Some version \<Rightarrow> truthy version \<and> newer_than_2_0 version)
                            then showToast ''This file was created with a newer version of the app. Some features may not import correctly.'' ''warning'' a
                            else a)
                  in if too_large importedData
                     then (Some (Error ''Import file is too large for browser storage. Please try a smaller export file.''), a1)
                     else if confirmed
                     then
                       (let backup = make_backup (localStorage a1)
                        in case on_storage (import_writes importedData) a1 of
                             (None, a2) \<Rightarrow>
                               (None, showToast ''Data imported successfully! Reloading app...'' ''success'' a2)
                           | (Some storageError, a2) \<Rightarrow>
                               andThen (on_storage (restore_backup (own_entries backup))
                                          (a2\<lparr>localStorage := clear (localStorage a2)\<rparr>))
                                 (\<lambda>a3. (Some (Error ''Error saving imported data. Your previous data has been restored.''), a3)))
                     else (None, a1))))"

text \<open>The handler's \<open>catch\<close>: whatever was thrown becomes an error toast.\<close>

definition importData :: "json option \<Rightarrow> bool \<Rightarrow> 'a app_scheme \<Rightarrow> 'a app_scheme" where
  "importData parsed confirmed a =
     (case importData_try parsed confirmed a of
        (None, a') \<Rightarrow> a'
      | (Some error, a') \<Rightarrow> showToast (''Error importing data: '' @ message error) ''error'' a')"

section \<open>The workout tracker\<close>

record workout_status =
  completed :: bool
  order :: int

text \<open>
  A click count is a JavaScript number: \<open>Num n\<close> is the double of integer value \<open>n\<close>, and
  \<open>NaN\<close> is what \<open>undefined + 1\<close> gives.
\<close>

datatype number = Num int | NaN

record history_entry =
  entry_type :: string
  count :: "number option"
  timestamp :: string

record tracker = app +
  workoutState :: "(string \<times> workout_status) list"
  workoutCounts :: "(string \<times> number) list"
  workoutHistory :: "(string \<times> history_entry list) list"

definition stateKey :: string where "stateKey = ''workout_state''"
definition historyKey :: string where "historyKey = ''workout_history''"
definition countKey :: string where "countKey = ''workout_count''"
definition lastResetKey :: string where "lastResetKey = STORAGE_KEYS_LAST_RESET_PREFIX @ ''workout''"

definition workoutTypes :: "string list" where
  "workoutTypes = [''Chest'', ''Back'', ''Shoulders'', ''Biceps'', ''Triceps'', ''Abs'', ''Legs'']"

fun indexOf :: "string list \<Rightarrow> string \<Rightarrow> int" where
  "indexOf [] x = - 1"
| "indexOf (y # ys) x =
     (if x = y then 0 else (let i = indexOf ys x in if i < 0 then - 1 else i + 1))"

text \<open>The JSON text of the three persisted structures.\<close>

definition status_json :: "workout_status \<Rightarrow> json" where
  "status_json s = JObj [(''completed'', JBool (completed s)), (''order'', JNum (order s))]"

fun number_json :: "number \<Rightarrow> json" where
  "number_json (Num n) = JNum n"
| "number_json NaN = JNull"

definition entry_json :: "history_entry \<Rightarrow> json" where
  "entry_json e =
     JObj ([(''type'', JStr (entry_type e))]
           @ (case count e of None \<Rightarrow> [] | Some c \<Rightarrow> [(''count'', number_json c)])
           @ [(''timestamp'', JStr (timestamp e))])"

definition workoutState_json :: "(string \<times> workout_status) list \<Rightarrow> json" where
  "workoutState_json ws = JObj (map (\<lambda>(type, state). (type, status_json state)) ws)"

definition workoutCounts_json :: "(string \<times> number) list \<Rightarrow> json" where
  "workoutCounts_json wc = JObj (map (\<lambda>(type, c). (type, number_json c)) wc)"

definition workoutHistory_json :: "(string \<times> history_entry list) list \<Rightarrow> json" where
  "workoutHistory_json h = JObj (map (\<lambda>(date, entries). (date, JArr (map entry_json entries))) h)"

subsection \<open>Display order\<close>

definition compareWorkouts :: "workout_status \<Rightarrow> workout_status \<Rightarrow> int" where
  "compareWorkouts a b =
     (if completed a \<noteq> completed b then (if completed a then 1 else - 1)
      else order a - order b)"

text \<open>\<open>Array.prototype.sort(compare)\<close>: a stable sort by the comparator.\<close>

fun insert_by :: "('a \<Rightarrow> 'a \<Rightarrow> int) \<Rightarrow> 'a \<Rightarrow> 'a list \<Rightarrow> 'a list" where
  "insert_by cmp x [] = [x]"
| "insert_by cmp x (y # ys) = (if cmp x y \<le> 0 then x # y # ys else y # insert_by cmp x ys)"

definition sort_by :: "('a \<Rightarrow> 'a \<Rightarrow> int) \<Rightarrow> 'a list \<Rightarrow> 'a list" where
  "sort_by cmp xs = foldr (insert_by cmp) xs []"

definition sortedWorkouts :: "(string \<times> workout_status) list \<Rightarrow> string list" where
  "sortedWorkouts ws = map fst (sort_by (\<lambda>(ta, a) (tb, b). compareWorkouts a b) ws)"

record tab =
  tab_type :: string
  tab_completed :: bool
  tab_icon :: string
  tab_badge :: "number option"

fun more_than_once :: "number option \<Rightarrow> bool" where
  "more_than_once (Some (Num n)) = (n > 1)"
| "more_than_once v = False"

text \<open>The tabs \<open>renderWorkoutTabs\<close> puts into the container, top to bottom.\<close>

definition renderWorkoutTabs :: "'a tracker_scheme \<Rightarrow> tab list" where
  "renderWorkoutTabs t =
     map (\<lambda>type.
            let done = (case map_of (workoutState t) type of None \<Rightarrow> False | Some s \<Rightarrow> completed s)
            in \<lparr>tab_type = type,
                tab_completed = done,
                tab_icon = (if done then ''check_circle'' else ''radio_button_unchecked''),
                tab_badge = (if more_than_once (map_of (workoutCounts t) type)
                             then map_of (workoutCounts t) type else None)\<rparr>)
         (sortedWorkouts (workoutState t))"

subsection \<open>Operations\<close>

text \<open>
  The methods of \<open>WorkoutTracker\<close> that change its fields or the store. The calls they end
  with, \<open>renderWorkoutTabs()\<close> and \<open>refreshHistory()\<close>, read the fields and rebuild the DOM;
  they change nothing below and are left out.
\<close>

definition saveState :: "'a tracker_scheme \<Rightarrow> 'a tracker_scheme outcome" where
  "saveState t =
     andThen (on_storage (setItem stateKey (stringify (workoutState_json (workoutState t)))) t)
       (\<lambda>t. on_storage (setItem countKey (stringify (workoutCounts_json (workoutCounts t)))) t)"

text \<open>The first loop of \<open>resetWorkoutTabs\<close>; writing a field of a missing entry throws.\<close>

fun reset_states :: "string list \<Rightarrow> 'a tracker_scheme \<Rightarrow> 'a tracker_scheme outcome" where
  "reset_states [] t = (None, t)"
| "reset_states (type # rest) t =
     (case map_of (workoutState t) type of
        None \<Rightarrow> (Some TypeError, t)
      | Some s \<Rightarrow>
          reset_states rest
            (t\<lparr>workoutState :=
                 AList.update type (s\<lparr>completed := False, order := indexOf workoutTypes type\<rparr>)
                   (workoutState t)\<rparr>))"

text \<open>The second loop: \<open>this.workoutCounts[type] = 0\<close>.\<close>

fun reset_counts :: "string list \<Rightarrow> 'a tracker_scheme \<Rightarrow> 'a tracker_scheme" where
  "reset_counts [] t = t"
| "reset_counts (type # rest) t =
     reset_counts rest (t\<lparr>workoutCounts := AList.update type (Num 0) (workoutCounts t)\<rparr>)"

definition resetWorkoutTabs :: "'a tracker_scheme \<Rightarrow> 'a tracker_scheme outcome" where
  "resetWorkoutTabs t =
     andThen (reset_states workoutTypes t) (\<lambda>t. saveState (reset_counts workoutTypes t))"

text \<open>
  \<open>today\<close> is \<open>utils.formatDate(new Date())\<close>, \<open>now\<close> is \<open>new Date().toISOString()\<close>.
\<close>

definition saveWorkoutHistory ::
    "string \<Rightarrow> string \<Rightarrow> string \<Rightarrow> 'a tracker_scheme \<Rightarrow> 'a tracker_scheme outcome" where
  "saveWorkoutHistory currentDate now type t =
     (let history1 = (if map_of (workoutHistory t) currentDate = None
                      then AList.update currentDate [] (workoutHistory t)
                      else workoutHistory t);
          bucket = (case map_of history1 currentDate of None \<Rightarrow> [] | Some entries \<Rightarrow> entries);
          entry = \<lparr>entry_type = type, count = map_of (workoutCounts t) type, timestamp = now\<rparr>;
          t' = t\<lparr>workoutHistory := AList.update currentDate (bucket @ [entry]) history1\<rparr>
      in on_storage (setItem historyKey (stringify (workoutHistory_json (workoutHistory t')))) t')"

text \<open>
  \<open>c + 1\<close> on a count read from the dictionary: the exact sum rounded to a double; \<open>NaN\<close>
  when the count is missing or is \<open>NaN\<close>.
\<close>

fun plus_one :: "number option \<Rightarrow> number" where
  "plus_one (Some (Num n)) = Num (to_double (n + 1))"
| "plus_one v = NaN"

definition allCompleted :: "'a tracker_scheme \<Rightarrow> bool" where
  "allCompleted t = list_all (\<lambda>(type, state). completed state) (workoutState t)"

text \<open>\<open>this.workoutCounts[type] += 1\<close>.\<close>

definition count_click :: "string \<Rightarrow> 'a tracker_scheme \<Rightarrow> 'a tracker_scheme" where
  "count_click type t =
     t\<lparr>workoutCounts :=
         AList.update type (plus_one (map_of (workoutCounts t) type)) (workoutCounts t)\<rparr>"

text \<open>\<open>this.workoutState[type].completed = true\<close>; it throws when the type has no entry.\<close>

definition mark_completed :: "string \<Rightarrow> 'a tracker_scheme \<Rightarrow> 'a tracker_scheme outcome" where
  "mark_completed type t =
     (case map_of (workoutState t) type of
        None \<Rightarrow> (Some TypeError, t)
      | Some s \<Rightarrow>
          (None, t\<lparr>workoutState := AList.update type (s\<lparr>completed := True\<rparr>) (workoutState t)\<rparr>))"

definition toggleWorkout ::
    "string \<Rightarrow> string \<Rightarrow> string \<Rightarrow> 'a tracker_scheme \<Rightarrow> 'a tracker_scheme outcome" where
  "toggleWorkout currentDate now type t =
     andThen (mark_completed type (count_click type t))
       (\<lambda>t2. andThen (saveWorkoutHistory currentDate now type t2)
          (\<lambda>t3. if allCompleted t3
                 then andThen (resetWorkoutTabs t3)
                        (\<lambda>t4. (None, showToast ''All workouts completed! Tabs have been reset.'' ''success'' t4))
                 else andThen (saveState t3)
                        (\<lambda>t4. (None, showToast (type @ '' workout marked as complete!'') ''success'' t4))))"

definition resetDailyWorkouts :: "string \<Rightarrow> 'a tracker_scheme \<Rightarrow> 'a tracker_scheme outcome" where
  "resetDailyWorkouts currentDate t =
     andThen (resetWorkoutTabs t)
       (\<lambda>t. case map_of (workoutHistory t) currentDate of
               None \<Rightarrow> (None, t)
             | Some entries \<Rightarrow>
                 (let t' = t\<lparr>workoutHistory := AList.delete currentDate (workoutHistory t)\<rparr>
                  in on_storage (setItem historyKey (stringify (workoutHistory_json (workoutHistory t')))) t'))"

definition checkAndResetDailyWorkouts :: "string \<Rightarrow> 'a tracker_scheme \<Rightarrow> 'a tracker_scheme outcome" where
  "checkAndResetDailyWorkouts currentDate t =
     (if getItem (localStorage t) lastResetKey \<noteq> Some currentDate
      then andThen (resetDailyWorkouts currentDate t)
             (on_storage (setItem lastResetKey currentDate))
      else (None, t))"

text \<open>The state the constructor builds when nothing is stored.\<close>

definition fresh_tracker :: "storage \<Rightarrow> tracker" where
  "fresh_tracker ls =
     \<lparr>localStorage = ls, toasts = [],
      workoutState = map (\<lambda>type. (type, \<lparr>completed = False, order = indexOf workoutTypes type\<rparr>)) workoutTypes,
      workoutCounts = map (\<lambda>type. (type, Num 0)) workoutTypes,
      workoutHistory = []\<rparr>"

text \<open>
  The first three statements of \<open>toggleWorkout\<close> on a type that has an entry: the state
  in memory once the history entry is pushed (the write of the history may have thrown).
\<close>

definition clicked :: "string \<Rightarrow> string \<Rightarrow> string \<Rightarrow> 'a tracker_scheme \<Rightarrow> 'a tracker_scheme outcome" where
  "clicked currentDate now type t =
     andThen (mark_completed type (count_click type t)) (saveWorkoutHistory currentDate now type)"

section \<open>Storage clean-up\<close>

definition historyKeys :: "string list" where
  "historyKeys =
     [STORAGE_KEYS_HISTORY_PREFIX @ ''water'',
      STORAGE_KEYS_HISTORY_PREFIX @ ''protein'',
      ''workout_history'',
      ''habits_data'']"

text \<open>
  \<open>Object.keys(v)\<close>: the member names of an object, the indices of an array or string,
  nothing for a number or boolean; it throws on \<open>null\<close> (\<open>None\<close>).
\<close>

fun object_keys :: "json \<Rightarrow> string list option" where
  "object_keys JNull = None"
| "object_keys (JObj fs) = Some (map fst fs)"
| "object_keys (JArr xs) = Some (map digits [0..<length xs])"
| "object_keys (JStr s) = Some (map digits [0..<length s])"
| "object_keys v = Some []"

text \<open>
  \<open>delete v[k]\<close>: removes a member of an object; leaves a hole in an array, which
  \<open>JSON.stringify\<close> writes as \<open>null\<close>; does nothing to a string, number or boolean.
\<close>

fun delete_property :: "string \<Rightarrow> json \<Rightarrow> json" where
  "delete_property k (JObj fs) = JObj (AList.delete k fs)"
| "delete_property k (JArr xs) =
     JArr (map (\<lambda>(i, x). if digits i = k then JNull else x) (zip [0..<length xs] xs))"
| "delete_property k v = v"

text \<open>
  The retention rule both branches apply to a date-keyed structure: sort the keys, and
  when there are more than 90, delete all but the last 90. The result is the structure
  and whether anything was removed; \<open>None\<close> when \<open>Object.keys\<close> throws.
\<close>

definition prune_dates :: "json \<Rightarrow> (json \<times> bool) option" where
  "prune_dates history =
     (case object_keys history of
        None \<Rightarrow> None
      | Some ks \<Rightarrow>
          (let dates = sort ks
           in if length dates > 90
              then (let datesToRemove = take (length dates - 90) dates
                    in Some (fold delete_property datesToRemove history, True))
              else Some (history, False)))"

text \<open>One habit of \<open>habits_data\<close>: \<open>if (habit.history) { ... }\<close>.\<close>

fun prune_habit :: "json \<Rightarrow> (json \<times> bool) option" where
  "prune_habit JNull = None"
| "prune_habit (JObj fs) =
     (case map_of fs ''history'' of
        None \<Rightarrow> Some (JObj fs, False)
      | Some h \<Rightarrow>
          if truthy h
          then (case prune_dates h of
                  None \<Rightarrow> None
                | Some (h', removed) \<Rightarrow> Some (JObj (AList.update ''history'' h' fs), removed))
          else Some (JObj fs, False))"
| "prune_habit habit = Some (habit, False)"

text \<open>
  \<open>habits.forEach\<close>: the flag \<open>cleanedUp\<close> is set as habits are pruned and stays set when
  a later habit throws (first component \<open>None\<close>).
\<close>

fun prune_habits :: "json list \<Rightarrow> bool \<Rightarrow> json list option \<times> bool" where
  "prune_habits [] cleanedUp = (Some [], cleanedUp)"
| "prune_habits (habit # rest) cleanedUp =
     (case prune_habit habit of
        None \<Rightarrow> (None, cleanedUp)
      | Some (habit', removed) \<Rightarrow>
          (case prune_habits rest (cleanedUp \<or> removed) of
             (None, flag) \<Rightarrow> (None, flag)
           | (Some rest', flag) \<Rightarrow> (Some (habit' # rest'), flag)))"

text \<open>
  The branch for \<open>habits_data\<close>: an array of habits is pruned habit by habit and
  written back (a refused write is caught); anything else is left alone.
\<close>

definition cleanup_habits_data :: "string \<Rightarrow> json \<Rightarrow> bool \<times> storage \<Rightarrow> bool \<times> storage" where
  "cleanup_habits_data k history acc =
     (case acc of (cleanedUp, ls) \<Rightarrow>
        (case history of
           JArr habits \<Rightarrow>
             (case prune_habits habits cleanedUp of
                (None, flag) \<Rightarrow> (flag, ls)
              | (Some habits', flag) \<Rightarrow> (flag, snd (setItem k (stringify (JArr habits')) ls)))
         | _ \<Rightarrow> (cleanedUp, ls)))"

text \<open>
  The branch for a standard history object with dates as keys: the flag is set after the
  write, so a refused write leaves it as it was.
\<close>

definition cleanup_date_history :: "string \<Rightarrow> json \<Rightarrow> bool \<times> storage \<Rightarrow> bool \<times> storage" where
  "cleanup_date_history k history acc =
     (case acc of (cleanedUp, ls) \<Rightarrow>
        (case prune_dates history of
           None \<Rightarrow> (cleanedUp, ls)
         | Some (history', removed) \<Rightarrow>
             if removed
             then (case setItem k (stringify history') ls of
                     (None, ls') \<Rightarrow> (True, ls')
                   | (Some e, ls') \<Rightarrow> (cleanedUp, ls'))
             else (cleanedUp, ls)))"

text \<open>
  The body of \<open>historyKeys.forEach\<close>, with its own \<open>try\<close>/\<open>catch\<close>: whatever throws inside
  is logged and the loop goes on. \<open>JSON_parse\<close> is the host's parser (\<open>None\<close> when it
  throws).
\<close>

definition cleanup_key ::
    "(string \<Rightarrow> json option) \<Rightarrow> string \<Rightarrow> bool \<times> storage \<Rightarrow> bool \<times> storage" where
  "cleanup_key JSON_parse k acc =
     (case getItem (snd acc) k of
        None \<Rightarrow> acc
      | Some historyData \<Rightarrow>
          if historyData = [] then acc
          else
            (case JSON_parse historyData of
               None \<Rightarrow> acc
             | Some history \<Rightarrow>
                 if \<not> typeof_object history then acc
                 else if k = ''habits_data'' then cleanup_habits_data k history acc
                 else cleanup_date_history k history acc))"

definition cleanupOldData :: "(string \<Rightarrow> json option) \<Rightarrow> storage \<Rightarrow> bool \<times> storage" where
  "cleanupOldData JSON_parse ls =
     foldl (\<lambda>acc k. cleanup_key JSON_parse k acc) (False, ls) historyKeys"

text \<open>The loop state when \<open>k\<close> is reached.\<close>

definition cleanup_before :: "(string \<Rightarrow> json option) \<Rightarrow> string \<Rightarrow> storage \<Rightarrow> bool \<times> storage" where
  "cleanup_before JSON_parse k ls =
     foldl (\<lambda>acc k'. cleanup_key JSON_parse k' acc) (False, ls) (takeWhile (\<lambda>k'. k' \<noteq> k) historyKeys)"

text \<open>A clean-up step leaves the store alone or rewrites the one key it is about.\<close>

definition touches_only :: "string \<Rightarrow> storage \<Rightarrow> storage \<Rightarrow> bool" where
  "touches_only k ls ls' = (ls' = ls \<or> (\<exists>v. ls' = ls\<lparr>items := AList.update k v (items ls)\<rparr>))"

section \<open>Statement vocabulary and worked examples\<close>

text \<open>A stored value that \<open>!value\<close> takes for missing: \<open>null\<close> or the empty string.\<close>

definition no_value :: "string option \<Rightarrow> bool" where
  "no_value v = (v = None \<or> v = Some [])"

text \<open>
  The condition of the export guard as the specification words it: no tracker has stored
  goal, intake or habit data.
\<close>

definition spec_no_tracker_data :: "storage \<Rightarrow> bool" where
  "spec_no_tracker_data ls =
     (getItem ls ''goal_water'' = None \<and> getItem ls ''intake_water'' = None
      \<and> getItem ls ''goal_protein'' = None \<and> getItem ls ''intake_protein'' = None
      \<and> getItem ls ''habits_data'' = None)"

text \<open>Pages, documents and trackers the theorems are run on.\<close>

definition intake_only_page :: app where
  "intake_only_page =
     \<lparr>localStorage = \<lparr>items = [(''intake_water'', ''500'')], quota = 5242880\<rparr>, toasts = []\<rparr>"

definition example_dates :: "string list" where
  "example_dates =
     concat (map (\<lambda>month. map (\<lambda>date. formatDate 2024 month date) (rev [1..<25]))
                 [2, 0, 4, 1, 3])"

definition example_history :: "(string \<times> json) list" where
  "example_history = map (\<lambda>d. (d, JArr [])) example_dates"

definition example_page :: app where
  "example_page =
     \<lparr>localStorage = \<lparr>items = [(''goal_water'', ''2000''), (''intake_water'', ''300'')], quota = 40\<rparr>,
      toasts = []\<rparr>"

definition example_bulk :: string where
  "example_bulk = replicate 5242840 CHR ''a''"

definition example_proto_page :: app where
  "example_proto_page =
     \<lparr>localStorage =
        \<lparr>items = [(''__proto__'', ''x''), (''history_water'', example_bulk), (''goal_water'', ''2000'')],
         quota = 5242880\<rparr>,
      toasts = []\<rparr>"

definition example_doc_no_protein :: json where
  "example_doc_no_protein =
     JObj [(''version'', JStr ''2.0''), (''water'', JObj [(''goal'', JStr ''2500'')])]"

definition example_doc_overflowing :: json where
  "example_doc_overflowing =
     JObj [(''version'', JStr ''2.0''),
           (''water'', JObj [(''goal'', JStr ''2500''), (''intake'', JNull)]),
           (''protein'', JObj [(''goal'', JStr ''150'')])]"

definition example_today :: string where "example_today = ''2024-05-01''"
definition example_now :: string where "example_now = ''2024-05-01T10:00:00.000Z''"

definition example_tracker :: tracker where
  "example_tracker = fresh_tracker \<lparr>items = [], quota = 5242880\<rparr>"

definition example_chest_done :: tracker where
  "example_chest_done =
     example_tracker
       \<lparr>workoutState := AList.update ''Chest'' \<lparr>completed = True, order = 0\<rparr> (workoutState example_tracker),
        workoutCounts := AList.update ''Chest'' (Num 1) (workoutCounts example_tracker),
        workoutHistory := [(example_today, [\<lparr>entry_type = ''Chest'', count = Some (Num 1), timestamp = example_now\<rparr>])]\<rparr>"

definition example_chest_at_2_53 :: tracker where
  "example_chest_at_2_53 =
     example_chest_done
       \<lparr>workoutCounts := AList.update ''Chest'' (Num (2 ^ 53)) (workoutCounts example_chest_done)\<rparr>"

definition example_legs_left :: tracker where
  "example_legs_left =
     example_tracker
       \<lparr>workoutState := map (\<lambda>type. (type, \<lparr>completed = (type \<noteq> ''Legs''), order = indexOf workoutTypes type\<rparr>)) workoutTypes,
        workoutCounts := map (\<lambda>type. (type, if type = ''Legs'' then Num 0 else Num 1)) workoutTypes\<rparr>"

definition example_parse :: "string \<Rightarrow> json option" where
  "example_parse s = (if s = stringify (JObj example_history) then Some (JObj example_history) else None)"

definition example_store :: storage where
  "example_store = \<lparr>items = [(''workout_history'', stringify (JObj example_history))], quota = 5242880\<rparr>"

definition example_stale :: tracker where
  "example_stale =
     example_chest_done
       \<lparr>localStorage := \<lparr>items = [(''lastResetDate_workout'', ''2024-04-27'')], quota = 5242880\<rparr>\<rparr>"

section \<open>Doubles: where adding one is exact\<close>

lemma to_double_exact [simp]:
  "- 9007199254740992 \<le> i \<Longrightarrow> i \<le> 9007199254740992 \<Longrightarrow> to_double i = i"
proof -
  assume a: "- 9007199254740992 \<le> i" "i \<le> 9007199254740992"
  have top: "nearest_double 9007199254740992 = 9007199254740992"
    by (simp add: nearest_double_def bit_length.simps Let_def)
  have small: "\<And>m. m < 9007199254740992 \<Longrightarrow> nearest_double m = m"
    by (simp add: nearest_double_def)
  have nn: "\<And>m. m \<le> 9007199254740992 \<Longrightarrow> nearest_double m = m"
    using top small by (metis le_neq_implies_less)
  show ?thesis using a nn [of "nat i"] nn [of "nat (- i)"] by (simp add: to_double_def)
qed

lemma to_double_above: "to_double 9007199254740993 = 9007199254740992"
  by (simp add: to_double_def nearest_double_def bit_length.simps Let_def)

lemma bit_length_above: "2 ^ k \<le> m \<Longrightarrow> k < bit_length m"
proof (induction k arbitrary: m)
  case 0
  then show ?case by (subst bit_length.simps) simp
next
  case (Suc k)
  have "2 ^ k \<le> m div 2" using Suc.prems by simp
  then have "k < bit_length (m div 2)" by (rule Suc.IH)
  moreover have "(0::nat) < 2 ^ Suc k" by simp
  then have "m \<noteq> 0" using Suc.prems by linarith
  ultimately show ?case by (subst bit_length.simps) simp
qed

lemma nearest_double_even: "2 ^ 53 \<le> m \<Longrightarrow> even (nearest_double m)"
proof -
  assume a: "2 ^ 53 \<le> m"
  have "53 < bit_length m" using a by (rule bit_length_above)
  then have "0 < bit_length m - 53" by simp
  then have "even ((2::nat) ^ (bit_length m - 53))" by simp
  then show ?thesis using a by (simp add: nearest_double_def Let_def)
qed

lemma to_double_plus_one_iff:
  assumes "to_double n = n"
  shows "to_double (n + 1) = n + 1 \<longleftrightarrow> - 9007199254740992 \<le> n \<and> n < 9007199254740992"
proof (cases "- 9007199254740992 \<le> n \<and> n < 9007199254740992")
  case True
  then show ?thesis using to_double_exact [of "n + 1"] by simp
next
  case False
  then consider (hi) "9007199254740992 \<le> n" | (lo) "n < - 9007199254740992" by linarith
  then have "to_double (n + 1) \<noteq> n + 1"
  proof cases
    case hi
    have "nearest_double (nat n) = nat n" using assms hi by (simp add: to_double_def)
    moreover have "even (nearest_double (nat n))" using hi by (intro nearest_double_even) simp
    ultimately have en: "even n" using hi by (metis even_nat_iff order_trans zero_le_numeral)
    have "even (nearest_double (nat (n + 1)))" using hi by (intro nearest_double_even) simp
    then have "even (to_double (n + 1))" using hi by (simp add: to_double_def)
    moreover have "odd (n + 1)" using en by simp
    ultimately show ?thesis by metis
  next
    case lo
    have "nearest_double (nat (- n)) = nat (- n)" using assms lo by (simp add: to_double_def)
    moreover have "even (nearest_double (nat (- n)))" using lo by (intro nearest_double_even) simp
    ultimately have "even (nat (- n))" by simp
    then have en: "even n" using lo by (simp add: even_nat_iff)
    have "even (nearest_double (nat (- (n + 1))))" using lo by (intro nearest_double_even) simp
    then have "even (to_double (n + 1))" using lo by (simp add: to_double_def)
    moreover have "odd (n + 1)" using en by simp
    ultimately show ?thesis by metis
  qed
  then show ?thesis using False by simp
qed

section \<open>Import: validation and rollback\<close>

lemma andThen_simps [simp]:
  "andThen (None, s) f = f s"
  "andThen (Some e, s) f = (Some e, s)"
  by (simp_all add: andThen_def)

lemma setItem_quota: "quota (snd (setItem k v ls)) = quota ls"
  by (simp add: setItem_def Let_def)

lemma seq_preserves:
  assumes "\<And>step s. step \<in> set steps \<Longrightarrow> f (snd (step s)) = f s"
  shows "f (snd (seq steps s)) = f s"
  using assms
proof (induction steps arbitrary: s)
  case Nil
  then show ?case by simp
next
  case (Cons step steps)
  obtain r s' where st: "step s = (r, s')" by (cases "step s")
  have fs: "f s' = f s" using Cons.prems [of step s] st by simp
  show ?case
  proof (cases r)
    case None
    then show ?thesis using st fs Cons.IH [of s'] Cons.prems by simp
  next
    case (Some e)
    then show ?thesis using st fs by simp
  qed
qed

lemma import_field_quota: "quota (snd (import_field obj field k ls)) = quota ls"
  by (simp add: import_field_def setItem_quota split: option.splits json.splits)

lemma import_block_quota:
  "quota (snd (seq [import_field w f1 k1, import_field w f2 k2, import_field w f3 k3] ls)) = quota ls"
  by (rule seq_preserves) (auto simp: import_field_quota)

lemma import_writes_quota: "quota (snd (import_writes d ls)) = quota ls"
  unfolding import_writes_def Let_def
  by (rule seq_preserves) (auto simp: import_field_quota import_block_quota simp del: seq.simps)

lemma update_fresh: "k \<notin> fst ` set xs \<Longrightarrow> AList.update k v xs = xs @ [(k, v)]"
  by (induction xs) auto

lemma usage_of_append: "usage_of (xs @ ys) = usage_of xs + usage_of ys"
  by (induction xs) auto

lemma restore_backup_append:
  "distinct (map fst (xs @ ys)) \<Longrightarrow> usage_of (xs @ ys) \<le> q \<Longrightarrow>
   restore_backup ys \<lparr>items = xs, quota = q\<rparr> = (None, \<lparr>items = xs @ ys, quota = q\<rparr>)"
proof (induction ys arbitrary: xs)
  case Nil
  then show ?case by simp
next
  case (Cons kv ys)
  obtain k v where kv: "kv = (k, v)" by (cases kv)
  have fresh: "k \<notin> fst ` set xs" using Cons.prems(1) kv by auto
  have fits: "usage_of (xs @ [(k, v)]) \<le> q"
    using Cons.prems(2) kv by (simp add: usage_of_append)
  have step: "setItem k v \<lparr>items = xs, quota = q\<rparr> = (None, \<lparr>items = xs @ [(k, v)], quota = q\<rparr>)"
    using fresh fits by (simp add: setItem_def update_fresh)
  have "restore_backup ys \<lparr>items = xs @ [(k, v)], quota = q\<rparr>
          = (None, \<lparr>items = (xs @ [(k, v)]) @ ys, quota = q\<rparr>)"
    using Cons.prems kv by (intro Cons.IH) simp_all
  then show ?case using step kv by simp
qed

lemma delete_append: "AList.delete p (xs @ ys) = AList.delete p xs @ AList.delete p ys"
  by (induction xs) auto

lemma make_backup_prefix:
  assumes "distinct (map fst (items ls))" and "n \<le> length (items ls)"
  shows "foldl (\<lambda>backup i.
              case key ls i of
                None \<Rightarrow> backup
              | Some k \<Rightarrow> (case getItem ls k of
                            None \<Rightarrow> backup
                          | Some v \<Rightarrow> assign k v backup))
           [] [0..<n] = AList.delete ''__proto__'' (take n (items ls))"
  using assms(2)
proof (induction n)
  case 0
  then show ?case by simp
next
  case (Suc n)
  let ?xs = "items ls"
  have n: "n < length ?xs" using Suc.prems by simp
  obtain k v where kv: "?xs ! n = (k, v)" by (cases "?xs ! n")
  have mem: "(k, v) \<in> set ?xs" using n kv by (metis nth_mem)
  have get: "getItem ls k = Some v"
    using assms(1) mem by (simp add: getItem_def)
  have fresh: "k \<notin> fst ` set (take n ?xs)"
  proof
    assume "k \<in> fst ` set (take n ?xs)"
    then obtain j where j: "j < n" "fst (?xs ! j) = k"
      by (auto simp: in_set_conv_nth)
    have "map fst ?xs ! j \<noteq> map fst ?xs ! n"
      using assms(1) j n by (auto simp: distinct_conv_nth)
    then show False using j n kv by simp
  qed
  have fresh': "k \<notin> fst ` set (AList.delete ''__proto__'' (take n ?xs))"
    using fresh dom_delete_subset [of "''__proto__''" "take n ?xs"] by auto
  show ?case
    using Suc.IH n kv get fresh'
    by (simp add: key_def assign_def update_fresh take_Suc_conv_app_nth delete_append)
qed

text \<open>The backup holds every pair of the store but the one named \<open>__proto__\<close>.\<close>

lemma make_backup_items:
  "distinct (map fst (items ls)) \<Longrightarrow> make_backup ls = AList.delete ''__proto__'' (items ls)"
  unfolding make_backup_def by (simp add: make_backup_prefix)

lemma usage_of_insort:
  "usage_of (insort_key f (k, v) xs) = length k + length v + usage_of xs"
  by (induction xs) auto

lemma usage_of_sort_key: "usage_of (sort_key f xs) = usage_of xs"
  by (induction xs) (auto simp: usage_of_insort split: prod.splits)

lemma usage_of_partition:
  "usage_of (filter P xs) + usage_of (filter (\<lambda>x. \<not> P x) xs) = usage_of xs"
  by (induction xs) auto

lemma usage_of_own_entries: "usage_of (own_entries xs) = usage_of xs"
  unfolding own_entries_def case_prod_beta
  using usage_of_partition [of "\<lambda>x. is_array_index (fst x)" xs]
  by (simp add: usage_of_append usage_of_sort_key)

lemma usage_of_delete: "usage_of (AList.delete p xs) \<le> usage_of xs"
  by (induction xs) auto

lemma set_own_entries: "set (own_entries xs) = set xs"
  unfolding own_entries_def by auto

lemma length_own_entries: "length (own_entries xs) = length xs"
  unfolding own_entries_def case_prod_beta
  using sum_length_filter_compl [of "\<lambda>x. is_array_index (fst x)" xs]
  by simp

lemma distinct_own_entries:
  assumes "distinct (map fst xs)"
  shows "distinct (map fst (own_entries xs))"
proof -
  have "card (set (map fst (own_entries xs))) = card (set (map fst xs))"
    by (simp add: set_own_entries)
  also have "\<dots> = length (map fst xs)" using assms by (rule distinct_card)
  also have "\<dots> = length (map fst (own_entries xs))" by (simp add: length_own_entries)
  finally show ?thesis by (rule card_distinct)
qed

lemma map_of_own_entries:
  "distinct (map fst xs) \<Longrightarrow> map_of (own_entries xs) = map_of xs"
  using map_of_inject_set [of "own_entries xs" xs]
  by (simp add: distinct_own_entries set_own_entries)

text \<open>
  Claim C2 (missing section). For every parsed import document that is not empty (an object,
  or any other truthy JSON value) and has no \<open>protein\<close> member, \<open>importData\<close> shows the
  error "Import file is missing required sections: ..." naming \<open>protein\<close> (after \<open>water\<close>
  when that is missing too), whatever the user would have answered to the confirm dialog,
  and the page is otherwise untouched: the store after the call is the store before it.
\<close>

theorem importData_missing_protein:
  assumes "truthy importedData" and "property importedData ''protein'' = None"
  shows "importData (Some importedData) confirmed a =
           showToast (if truthy_opt (property importedData ''water'')
                      then ''Error importing data: Import file is missing required sections: protein.''
                      else ''Error importing data: Import file is missing required sections: water, protein.'')
             ''error'' a
         \<and> localStorage (importData (Some importedData) confirmed a) = localStorage a"
  using assms
  by (simp add: importData_def importData_try_def missingSections_def requiredSections_def
      truthy_opt_def showToast_def)

theorem importData_missing_protein_witness:
  "truthy example_doc_no_protein
   \<and> property example_doc_no_protein ''protein'' = None
   \<and> importData (Some example_doc_no_protein) True example_page
       = showToast ''Error importing data: Import file is missing required sections: protein.''
           ''error'' example_page
   \<and> localStorage (importData (Some example_doc_no_protein) True example_page)
       = \<lparr>items = [(''goal_water'', ''2000''), (''intake_water'', ''300'')], quota = 40\<rparr>"
proof -
  have h1: "truthy example_doc_no_protein" by (simp add: example_doc_no_protein_def)
  have h2: "property example_doc_no_protein ''protein'' = None" by (simp add: example_doc_no_protein_def)
  have w: "truthy_opt (property example_doc_no_protein ''water'')"
    by (simp add: example_doc_no_protein_def truthy_opt_def)
  show ?thesis
    using h1 h2 w importData_missing_protein [OF h1 h2, of True example_page]
    by (simp add: example_page_def showToast_def)
qed

text \<open>
  What a failed import leaves behind: the store is rebuilt from the backup, in the order
  \<open>Object.keys\<close> lists it, so every key has its old value again except \<open>__proto__\<close>,
  which the backup never held.
\<close>

lemma importData_write_failure_store:
  assumes ok: "storage_ok (localStorage a)"
    and valid: "truthy importedData" "missingSections importedData = []"
      "invalid_section importedData requiredSections = None" "\<not> too_large importedData"
    and fails: "fst (import_writes importedData (localStorage a)) \<noteq> None"
  shows "localStorage (importData (Some importedData) True a)
           = \<lparr>items = own_entries (AList.delete ''__proto__'' (items (localStorage a))),
              quota = quota (localStorage a)\<rparr>"
    and "getItem (localStorage (importData (Some importedData) True a)) k
           = (if k = ''__proto__'' then None else getItem (localStorage a) k)"
    and "last (toasts (importData (Some importedData) True a)) =
           (''Error importing data: Error saving imported data. Your previous data has been restored.'', ''error'')"
proof -
  let ?ls = "localStorage a"
  let ?bk = "AList.delete ''__proto__'' (items ?ls)"
  obtain e ls2 where w: "import_writes importedData ?ls = (Some e, ls2)"
    using fails by (cases "import_writes importedData ?ls") auto
  have q: "quota ls2 = quota ?ls"
    using import_writes_quota [of importedData ?ls] w by simp
  have cl: "clear ls2 = \<lparr>items = [], quota = quota ?ls\<rparr>"
    using q by (simp add: clear_def)
  have d: "distinct (map fst (items ?ls))" and u: "usage_of (items ?ls) \<le> quota ?ls"
    using ok by (simp_all add: storage_ok_def getUsage_def)
  have bk: "make_backup ?ls = ?bk" using d by (rule make_backup_items)
  have dbk: "distinct (map fst ?bk)" using d by (simp add: distinct_delete)
  have "usage_of (own_entries ?bk) \<le> quota ?ls"
    using u usage_of_delete [of "''__proto__''" "items ?ls"] by (simp add: usage_of_own_entries)
  then have rs: "restore_backup (own_entries ?bk) (clear ls2)
                   = (None, \<lparr>items = own_entries ?bk, quota = quota ?ls\<rparr>)"
    using distinct_own_entries [OF dbk] restore_backup_append [of "[]" "own_entries ?bk" "quota ?ls"] cl
    by simp
  show store: "localStorage (importData (Some importedData) True a)
           = \<lparr>items = own_entries ?bk, quota = quota ?ls\<rparr>"
    using valid w bk rs
    by (simp add: importData_def importData_try_def on_storage_def showToast_def Let_def
        split: option.splits)
  show "getItem (localStorage (importData (Some importedData) True a)) k
           = (if k = ''__proto__'' then None else getItem ?ls k)"
    using store map_of_own_entries [OF dbk] by (simp add: getItem_def delete_conv')
  show "last (toasts (importData (Some importedData) True a)) =
           (''Error importing data: Error saving imported data. Your previous data has been restored.'', ''error'')"
    using valid w bk rs
    by (simp add: importData_def importData_try_def on_storage_def showToast_def Let_def
        split: option.splits)
qed

lemma length_example_bulk: "length example_bulk = 5242840"
  by (simp add: example_bulk_def)

text \<open>
  Claim C1 (all-or-nothing import). The claim is that after a failed import the store
  equals the store before the import. The code does not achieve this for a store that
  holds the key \<open>__proto__\<close>. Here a store of 5 MiB holds \<open>__proto__\<close>, a long water
  history and a water goal, and is nearly full; the import file passes every check and is
  confirmed; the new water goal is written and the write of the protein goal is refused
  for lack of room. The handler clears the store and writes the backup back, reports that
  the previous data has been restored, and the store holds the water history and the old
  water goal again, but \<open>__proto__\<close> is gone.
\<close>

theorem importData_restore_loses_proto_key:
  "storage_ok (localStorage example_proto_page)
   \<and> getItem (localStorage example_proto_page) ''__proto__'' = Some ''x''
   \<and> import_writes example_doc_overflowing (localStorage example_proto_page)
       = (Some QuotaExceededError,
          \<lparr>items = [(''__proto__'', ''x''), (''history_water'', example_bulk), (''goal_water'', ''2500'')],
           quota = 5242880\<rparr>)
   \<and> localStorage (importData (Some example_doc_overflowing) True example_proto_page)
       = \<lparr>items = [(''history_water'', example_bulk), (''goal_water'', ''2000'')], quota = 5242880\<rparr>
   \<and> getItem (localStorage (importData (Some example_doc_overflowing) True example_proto_page))
         ''__proto__'' = None
   \<and> last (toasts (importData (Some example_doc_overflowing) True example_proto_page))
       = (''Error importing data: Error saving imported data. Your previous data has been restored.'',
          ''error'')"
proof -
  have ok: "storage_ok (localStorage example_proto_page)"
    by (simp add: example_proto_page_def storage_ok_def getUsage_def length_example_bulk)
  have g: "getItem (localStorage example_proto_page) ''__proto__'' = Some ''x''"
    by (simp add: example_proto_page_def getItem_def)
  have v1: "truthy example_doc_overflowing" by (simp add: example_doc_overflowing_def)
  have v2: "missingSections example_doc_overflowing = []"
    by (simp add: example_doc_overflowing_def missingSections_def requiredSections_def truthy_opt_def)
  have v3: "invalid_section example_doc_overflowing requiredSections = None"
    by (simp add: example_doc_overflowing_def requiredSections_def)
  have v4: "\<not> too_large example_doc_overflowing"
    by (simp add: example_doc_overflowing_def too_large_def availableSpace_def quote_def escape_char_def)
  have f: "import_writes example_doc_overflowing (localStorage example_proto_page)
             = (Some QuotaExceededError,
                \<lparr>items = [(''__proto__'', ''x''), (''history_water'', example_bulk), (''goal_water'', ''2500'')],
                 quota = 5242880\<rparr>)"
    by (simp add: example_proto_page_def example_doc_overflowing_def import_writes_def import_field_def setItem_def
        STORAGE_KEYS_GOAL_PREFIX_def STORAGE_KEYS_INTAKE_PREFIX_def STORAGE_KEYS_HISTORY_PREFIX_def
        truthy_opt_def Let_def length_example_bulk)
  then have f': "fst (import_writes example_doc_overflowing (localStorage example_proto_page)) \<noteq> None"
    by simp
  have own: "own_entries [(''history_water'', example_bulk), (''goal_water'', ''2000'')]
               = [(''history_water'', example_bulk), (''goal_water'', ''2000'')]"
    by (simp add: own_entries_def is_array_index_def is_digit_def)
  show ?thesis
    using ok g f own importData_write_failure_store [OF ok v1 v2 v3 v4 f']
    by (simp add: example_proto_page_def)
qed

section \<open>Export\<close>

text \<open>
  Claim C5 as stated fails: it says that \<open>exportData\<close> reports "no data" exactly when no
  tracker has stored goal, intake or habit data. On a store that holds only a water intake
  the export is refused although intake data exists.
\<close>

theorem exportData_intake_only_counterexample:
  "\<not> (fst (exportData ''2024-05-01T10:00:00.000Z'' intake_only_page) = None
        \<longleftrightarrow> spec_no_tracker_data (localStorage intake_only_page))"
  by (simp add: exportData_def export_document_def stored_def getItem_def property2_def
      truthy_opt_def intake_only_page_def spec_no_tracker_data_def
      STORAGE_KEYS_GOAL_PREFIX_def)

text \<open>
  Claim C5, amended. \<open>exportData\<close> shows "No tracking data found to export." and emits
  nothing exactly when the stored water goal, the stored protein goal and the stored habits
  data are each absent or empty; intake, history and workout entries are not consulted.
  In every other case it emits the document with the members \<open>version\<close> ("2.0"),
  \<open>exportDate\<close>, \<open>water\<close>, \<open>protein\<close>, \<open>workout\<close>, \<open>habits\<close>, \<open>settings\<close>, whose leaves are the
  stored strings (or \<open>null\<close>), and shows the success toast.
\<close>

theorem exportData_no_data_iff_no_goal_or_habits:
  "exportData now a =
     (if no_value (getItem (localStorage a) ''goal_water'')
         \<and> no_value (getItem (localStorage a) ''goal_protein'')
         \<and> no_value (getItem (localStorage a) ''habits_data'')
      then (None, showToast ''No tracking data found to export.'' ''error'' a)
      else (Some (export_document now (localStorage a)),
            showToast ''Data exported successfully!'' ''success'' a))
   \<and> property (export_document now (localStorage a)) ''version'' = Some (JStr ''2.0'')
   \<and> property (export_document now (localStorage a)) ''exportDate'' = Some (JStr now)
   \<and> map fst (case export_document now (localStorage a) of JObj fs \<Rightarrow> fs | _ \<Rightarrow> [])
       = [''version'', ''exportDate'', ''water'', ''protein'', ''workout'', ''habits'', ''settings'']"
  by (auto simp: exportData_def export_document_def stored_def property2_def
      truthy_opt_def no_value_def STORAGE_KEYS_GOAL_PREFIX_def Let_def
      split: option.splits)

theorem exportData_no_data_iff_no_goal_or_habits_witness:
  "getItem (localStorage example_page) ''goal_water'' = Some ''2000''
   \<and> exportData example_now example_page
       = (Some (export_document example_now (localStorage example_page)),
          showToast ''Data exported successfully!'' ''success'' example_page)
   \<and> fst (exportData example_now intake_only_page) = None"
  using exportData_no_data_iff_no_goal_or_habits [of example_now example_page]
    exportData_no_data_iff_no_goal_or_habits [of example_now intake_only_page]
  by (simp add: no_value_def getItem_def example_page_def intake_only_page_def)

section \<open>The workout tracker: resets, rollover, clicks\<close>

lemma andThen_None:
  "andThen r f = (None, s') \<longleftrightarrow> (\<exists>s. r = (None, s) \<and> f s = (None, s'))"
  by (cases r; cases "fst r") auto

lemma on_storage_memory [simp]:
  "workoutState (snd (on_storage f t)) = workoutState t"
  "workoutCounts (snd (on_storage f t)) = workoutCounts t"
  "workoutHistory (snd (on_storage f t)) = workoutHistory t"
  "toasts (snd (on_storage f t)) = toasts t"
  by (simp_all add: on_storage_def split: prod.splits)

lemma saveState_memory [simp]:
  "workoutState (snd (saveState t)) = workoutState t"
  "workoutCounts (snd (saveState t)) = workoutCounts t"
  "workoutHistory (snd (saveState t)) = workoutHistory t"
  "toasts (snd (saveState t)) = toasts t"
proof -
  obtain r t1 where s1: "on_storage (setItem stateKey (stringify (workoutState_json (workoutState t)))) t = (r, t1)"
    by (cases "on_storage (setItem stateKey (stringify (workoutState_json (workoutState t)))) t")
  have m: "workoutState t1 = workoutState t" "workoutCounts t1 = workoutCounts t"
    "workoutHistory t1 = workoutHistory t" "toasts t1 = toasts t"
    using on_storage_memory [of "setItem stateKey (stringify (workoutState_json (workoutState t)))" t] s1
    by simp_all
  show "workoutState (snd (saveState t)) = workoutState t"
    "workoutCounts (snd (saveState t)) = workoutCounts t"
    "workoutHistory (snd (saveState t)) = workoutHistory t"
    "toasts (snd (saveState t)) = toasts t"
    using s1 m by (cases r; simp add: saveState_def)+
qed

lemma status_reset [simp]:
  "(s :: workout_status)\<lparr>completed := False, order := i\<rparr> = \<lparr>completed = False, order = i\<rparr>"
  by (cases s) simp

text \<open>The first loop of a reset, on a state that has an entry for every type it visits.\<close>

lemma reset_states_ok:
  assumes "set types \<subseteq> fst ` set (workoutState t)"
  shows "\<exists>ws. reset_states types t = (None, t\<lparr>workoutState := ws\<rparr>)
            \<and> fst ` set ws = fst ` set (workoutState t)
            \<and> (\<forall>ty \<in> set types. map_of ws ty = Some \<lparr>completed = False, order = indexOf workoutTypes ty\<rparr>)
            \<and> (\<forall>ty. ty \<notin> set types \<longrightarrow> map_of ws ty = map_of (workoutState t) ty)"
  using assms
proof (induction types arbitrary: t)
  case Nil
  then show ?case by (intro exI [of _ "workoutState t"]) simp
next
  case (Cons ty types)
  from Cons.prems obtain s where s: "map_of (workoutState t) ty = Some s"
    by (metis (no_types, lifting) list.set_intros(1) map_of_eq_None_iff not_Some_eq subsetD)
  let ?new = "\<lparr>completed = False, order = indexOf workoutTypes ty\<rparr>"
  let ?t1 = "t\<lparr>workoutState := AList.update ty ?new (workoutState t)\<rparr>"
  have dom1: "fst ` set (workoutState ?t1) = fst ` set (workoutState t)"
    using Cons.prems by (auto simp: dom_update [simplified dom_map_of_conv_image_fst])
  then have "set types \<subseteq> fst ` set (workoutState ?t1)" using Cons.prems by simp
  from Cons.IH [OF this] obtain ws where ws:
    "reset_states types ?t1 = (None, ?t1\<lparr>workoutState := ws\<rparr>)"
    "fst ` set ws = fst ` set (workoutState ?t1)"
    "\<forall>ty' \<in> set types. map_of ws ty' = Some \<lparr>completed = False, order = indexOf workoutTypes ty'\<rparr>"
    "\<forall>ty'. ty' \<notin> set types \<longrightarrow> map_of ws ty' = map_of (workoutState ?t1) ty'"
    by blast
  have step: "reset_states (ty # types) t = (None, t\<lparr>workoutState := ws\<rparr>)"
    using s ws(1) by simp
  have here: "map_of ws ty = Some ?new"
  proof (cases "ty \<in> set types")
    case True
    then show ?thesis using ws(3) by simp
  next
    case False
    then show ?thesis using ws(4) by (simp add: update_conv')
  qed
  have others: "\<forall>ty'. ty' \<notin> set (ty # types) \<longrightarrow> map_of ws ty' = map_of (workoutState t) ty'"
    using ws(4) by (simp add: update_conv')
  show ?case
    using step ws(2,3) dom1 here others by (intro exI [of _ ws]) simp
qed

lemma reset_counts_memory [simp]:
  "workoutState (reset_counts types t) = workoutState t"
  "workoutHistory (reset_counts types t) = workoutHistory t"
  "toasts (reset_counts types t) = toasts t"
  "localStorage (reset_counts types t) = localStorage t"
  by (induction types arbitrary: t) simp_all

lemma reset_counts_zero:
  "map_of (workoutCounts (reset_counts types t)) ty
     = (if ty \<in> set types then Some (Num 0) else map_of (workoutCounts t) ty)"
  by (induction types arbitrary: t) (auto simp: update_conv')

text \<open>What a reset does to the tracker's memory, whatever the store says to the writes.\<close>

lemma resetWorkoutTabs_memory:
  assumes "set workoutTypes \<subseteq> fst ` set (workoutState t)"
  shows "(\<forall>ty \<in> set workoutTypes.
            map_of (workoutState (snd (resetWorkoutTabs t))) ty
              = Some \<lparr>completed = False, order = indexOf workoutTypes ty\<rparr>
            \<and> map_of (workoutCounts (snd (resetWorkoutTabs t))) ty = Some (Num 0))"
    and "workoutHistory (snd (resetWorkoutTabs t)) = workoutHistory t"
    and "toasts (snd (resetWorkoutTabs t)) = toasts t"
    and "fst ` set (workoutState (snd (resetWorkoutTabs t))) = fst ` set (workoutState t)"
proof -
  obtain ws where ws:
    "reset_states workoutTypes t = (None, t\<lparr>workoutState := ws\<rparr>)"
    "fst ` set ws = fst ` set (workoutState t)"
    "\<forall>ty \<in> set workoutTypes. map_of ws ty = Some \<lparr>completed = False, order = indexOf workoutTypes ty\<rparr>"
    using reset_states_ok [OF assms] by blast
  have r: "resetWorkoutTabs t = saveState (reset_counts workoutTypes (t\<lparr>workoutState := ws\<rparr>))"
    using ws(1) by (simp add: resetWorkoutTabs_def)
  show "(\<forall>ty \<in> set workoutTypes.
            map_of (workoutState (snd (resetWorkoutTabs t))) ty
              = Some \<lparr>completed = False, order = indexOf workoutTypes ty\<rparr>
            \<and> map_of (workoutCounts (snd (resetWorkoutTabs t))) ty = Some (Num 0))"
    using ws(3) by (simp add: r reset_counts_zero)
  show "workoutHistory (snd (resetWorkoutTabs t)) = workoutHistory t" by (simp add: r)
  show "toasts (snd (resetWorkoutTabs t)) = toasts t" by (simp add: r)
  show "fst ` set (workoutState (snd (resetWorkoutTabs t))) = fst ` set (workoutState t)"
    using ws(2) by (simp add: r)
qed

lemma delete_absent: "map_of h k = None \<Longrightarrow> AList.delete k h = h"
  by (induction h) (auto split: if_splits)

lemma on_storage_setItem_done:
  "on_storage (setItem k v) t = (None, t') \<Longrightarrow> getItem (localStorage t') k = Some v"
  by (auto simp: on_storage_def setItem_def getItem_def Let_def update_conv'
      split: prod.splits if_splits)

lemma reset_states_entries:
  "reset_states types t = (None, t') \<Longrightarrow> set types \<subseteq> fst ` set (workoutState t)"
proof (induction types arbitrary: t)
  case Nil
  then show ?case by simp
next
  case (Cons ty types)
  from Cons.prems obtain s where s: "map_of (workoutState t) ty = Some s"
    by (cases "map_of (workoutState t) ty") auto
  let ?t1 = "t\<lparr>workoutState :=
                 AList.update ty (s\<lparr>completed := False, order := indexOf workoutTypes ty\<rparr>)
                   (workoutState t)\<rparr>"
  have "reset_states types ?t1 = (None, t')" using Cons.prems s by simp
  then have "set types \<subseteq> fst ` set (workoutState ?t1)" by (rule Cons.IH)
  moreover have "fst ` set (workoutState ?t1) = insert ty (fst ` set (workoutState t))"
    by (simp add: dom_update [simplified dom_map_of_conv_image_fst])
  moreover have "ty \<in> fst ` set (workoutState t)"
    using s by (metis map_of_eq_None_iff option.distinct(1))
  ultimately show ?case by auto
qed

lemma resetWorkoutTabs_entries:
  assumes "fst (resetWorkoutTabs t) = None"
  shows "set workoutTypes \<subseteq> fst ` set (workoutState t)"
proof -
  obtain r tm where rs: "reset_states workoutTypes t = (r, tm)"
    by (cases "reset_states workoutTypes t")
  have "r = None" using assms rs by (cases r) (simp_all add: resetWorkoutTabs_def)
  then show ?thesis using rs reset_states_entries by blast
qed

text \<open>The daily reset, once the reset of the tabs has completed.\<close>

lemma resetDailyWorkouts_memory:
  assumes ok: "fst (resetWorkoutTabs t) = None"
  shows "workoutState (snd (resetDailyWorkouts today t)) = workoutState (snd (resetWorkoutTabs t))"
    and "workoutCounts (snd (resetDailyWorkouts today t)) = workoutCounts (snd (resetWorkoutTabs t))"
    and "workoutHistory (snd (resetDailyWorkouts today t)) = AList.delete today (workoutHistory t)"
    and "toasts (snd (resetDailyWorkouts today t)) = toasts t"
proof -
  note mem = resetWorkoutTabs_memory [OF resetWorkoutTabs_entries [OF ok]]
  obtain t1 where r: "resetWorkoutTabs t = (None, t1)"
    using ok by (cases "resetWorkoutTabs t") simp
  have h1: "workoutHistory t1 = workoutHistory t" "toasts t1 = toasts t"
    using mem(2,3) r by simp_all
  show "workoutState (snd (resetDailyWorkouts today t)) = workoutState (snd (resetWorkoutTabs t))"
    and "workoutCounts (snd (resetDailyWorkouts today t)) = workoutCounts (snd (resetWorkoutTabs t))"
    and "workoutHistory (snd (resetDailyWorkouts today t)) = AList.delete today (workoutHistory t)"
    and "toasts (snd (resetDailyWorkouts today t)) = toasts t"
    using r h1
    by (cases "map_of (workoutHistory t) today";
        simp add: resetDailyWorkouts_def delete_absent Let_def)+
qed

text \<open>
  Claim C7 (the two resets). On a tracker that has an entry for every workout type,
  \<open>resetWorkoutTabs\<close> leaves every type not completed, with its order equal to its index in
  \<open>workoutTypes\<close>, and every count at 0, and the history, today's bucket included, is what
  it was. \<open>resetDailyWorkouts\<close> runs that reset first and, once it has completed, the state
  and counts are reset in the same way and the history is the old one without the bucket
  of today's date.
\<close>

theorem reset_with_and_without_history:
  assumes wf: "set workoutTypes \<subseteq> fst ` set (workoutState t)"
  shows "(\<forall>type \<in> set workoutTypes.
            map_of (workoutState (snd (resetWorkoutTabs t))) type
              = Some \<lparr>completed = False, order = indexOf workoutTypes type\<rparr>
            \<and> map_of (workoutCounts (snd (resetWorkoutTabs t))) type = Some (Num 0))
       \<and> workoutHistory (snd (resetWorkoutTabs t)) = workoutHistory t
       \<and> (fst (resetWorkoutTabs t) = None \<longrightarrow>
            (\<forall>type \<in> set workoutTypes.
               map_of (workoutState (snd (resetDailyWorkouts today t))) type
                 = Some \<lparr>completed = False, order = indexOf workoutTypes type\<rparr>
               \<and> map_of (workoutCounts (snd (resetDailyWorkouts today t))) type = Some (Num 0))
            \<and> workoutHistory (snd (resetDailyWorkouts today t))
                 = AList.delete today (workoutHistory t)
            \<and> map_of (workoutHistory (snd (resetDailyWorkouts today t))) today = None)"
proof -
  note mem = resetWorkoutTabs_memory [OF wf]
  have daily: "workoutState (snd (resetDailyWorkouts today t)) = workoutState (snd (resetWorkoutTabs t))
             \<and> workoutCounts (snd (resetDailyWorkouts today t)) = workoutCounts (snd (resetWorkoutTabs t))
             \<and> workoutHistory (snd (resetDailyWorkouts today t)) = AList.delete today (workoutHistory t)"
    if ok: "fst (resetWorkoutTabs t) = None"
  proof -
    obtain t1 where r: "resetWorkoutTabs t = (None, t1)"
      using ok by (cases "resetWorkoutTabs t") simp
    have h1: "workoutHistory t1 = workoutHistory t" using mem(2) r by simp
    show ?thesis
    proof (cases "map_of (workoutHistory t) today")
      case None
      then show ?thesis
        using r h1 by (simp add: resetDailyWorkouts_def delete_absent)
    next
      case (Some entries)
      then show ?thesis
        using r h1 by (simp add: resetDailyWorkouts_def Let_def)
    qed
  qed
  have gone: "map_of (AList.delete today (workoutHistory t)) today = None"
    by (simp add: delete_conv')
  show ?thesis using mem(1,2) daily gone by simp
qed

theorem reset_with_and_without_history_witness:
  "set workoutTypes \<subseteq> fst ` set (workoutState example_chest_done)
   \<and> map_of (workoutState example_chest_done) ''Chest'' = Some \<lparr>completed = True, order = 0\<rparr>
   \<and> map_of (workoutState (snd (resetWorkoutTabs example_chest_done))) ''Chest''
       = Some \<lparr>completed = False, order = 0\<rparr>
   \<and> map_of (workoutCounts (snd (resetWorkoutTabs example_chest_done))) ''Chest'' = Some (Num 0)
   \<and> workoutHistory (snd (resetWorkoutTabs example_chest_done))
       = [(example_today, [\<lparr>entry_type = ''Chest'', count = Some (Num 1), timestamp = example_now\<rparr>])]
   \<and> fst (resetWorkoutTabs example_chest_done) = None
   \<and> map_of (workoutState (snd (resetDailyWorkouts example_today example_chest_done))) ''Chest''
       = Some \<lparr>completed = False, order = 0\<rparr>
   \<and> workoutHistory (snd (resetDailyWorkouts example_today example_chest_done)) = []"
proof -
  have wf: "set workoutTypes \<subseteq> fst ` set (workoutState example_chest_done)"
    by (simp add: example_chest_done_def example_tracker_def fresh_tracker_def workoutTypes_def example_today_def example_now_def)
  have s: "map_of (workoutState example_chest_done) ''Chest'' = Some \<lparr>completed = True, order = 0\<rparr>"
    by (simp add: example_chest_done_def example_tracker_def fresh_tracker_def workoutTypes_def example_today_def example_now_def)
  have c: "''Chest'' \<in> set workoutTypes" "indexOf workoutTypes ''Chest'' = 0"
    by (simp_all add: workoutTypes_def)
  have h: "workoutHistory example_chest_done
             = [(example_today, [\<lparr>entry_type = ''Chest'', count = Some (Num 1), timestamp = example_now\<rparr>])]"
    by (simp add: example_chest_done_def example_tracker_def fresh_tracker_def workoutTypes_def example_today_def example_now_def)
  have r: "fst (resetWorkoutTabs example_chest_done) = None"
    by (simp add: example_chest_done_def example_tracker_def fresh_tracker_def workoutTypes_def example_today_def example_now_def
        resetWorkoutTabs_def saveState_def setItem_def getItem_def on_storage_def showToast_def stateKey_def countKey_def historyKey_def
        workoutState_json_def workoutCounts_json_def workoutHistory_json_def status_json_def entry_json_def
        quote_def escape_char_def Number_toString_def Number_digits_def digits.simps digit_char_def Let_def)
  show ?thesis
    using wf s c h r reset_with_and_without_history [OF wf, of example_today]
    by auto
qed

text \<open>
  Claim C3 (rollover once per day). When the stored marker is today's date the check does
  nothing. When it is anything else (absent, yesterday, many days old) the check is one
  run of \<open>resetDailyWorkouts\<close> followed by one write of today's date to the marker, however
  old the marker was; when it completes, every workout type is not completed, in canonical
  order, with count 0, and the history has lost at most the bucket of today's date. After
  a check that completed, the marker is today's date and a second check on the same date
  changes nothing: no second reset, no second marker write.
\<close>

theorem checkAndResetDailyWorkouts_once_per_day:
  "(getItem (localStorage t) lastResetKey = Some today \<longrightarrow>
      checkAndResetDailyWorkouts today t = (None, t))
   \<and> (getItem (localStorage t) lastResetKey \<noteq> Some today \<longrightarrow>
        checkAndResetDailyWorkouts today t
          = andThen (resetDailyWorkouts today t) (on_storage (setItem lastResetKey today))
        \<and> (checkAndResetDailyWorkouts today t = (None, t') \<longrightarrow>
             (\<forall>type \<in> set workoutTypes.
                map_of (workoutState t') type
                  = Some \<lparr>completed = False, order = indexOf workoutTypes type\<rparr>
                \<and> map_of (workoutCounts t') type = Some (Num 0))
             \<and> workoutHistory t' = AList.delete today (workoutHistory t)))
   \<and> (checkAndResetDailyWorkouts today t = (None, t') \<longrightarrow>
        getItem (localStorage t') lastResetKey = Some today
        \<and> checkAndResetDailyWorkouts today t' = (None, t'))"
proof -
  have stale: "getItem (localStorage t') lastResetKey = Some today
               \<and> (\<forall>type \<in> set workoutTypes.
                    map_of (workoutState t') type
                      = Some \<lparr>completed = False, order = indexOf workoutTypes type\<rparr>
                    \<and> map_of (workoutCounts t') type = Some (Num 0))
               \<and> workoutHistory t' = AList.delete today (workoutHistory t)"
    if differs: "getItem (localStorage t) lastResetKey \<noteq> Some today"
      and run: "checkAndResetDailyWorkouts today t = (None, t')"
  proof -
    have "andThen (resetDailyWorkouts today t) (on_storage (setItem lastResetKey today)) = (None, t')"
      using run differs by (simp add: checkAndResetDailyWorkouts_def)
    then obtain t1 where d: "resetDailyWorkouts today t = (None, t1)"
      and w: "on_storage (setItem lastResetKey today) t1 = (None, t')"
      unfolding andThen_None by blast
    have ok: "fst (resetWorkoutTabs t) = None"
      using d by (cases "resetWorkoutTabs t"; cases "fst (resetWorkoutTabs t)")
                 (auto simp: resetDailyWorkouts_def)
    have m': "workoutState t' = workoutState t1" "workoutCounts t' = workoutCounts t1"
      "workoutHistory t' = workoutHistory t1"
      using on_storage_memory [of "setItem lastResetKey today" t1] w by simp_all
    have m1: "workoutState t1 = workoutState (snd (resetWorkoutTabs t))"
      "workoutCounts t1 = workoutCounts (snd (resetWorkoutTabs t))"
      "workoutHistory t1 = AList.delete today (workoutHistory t)"
      using resetDailyWorkouts_memory [OF ok, of today] d by simp_all
    show ?thesis
      using on_storage_setItem_done [OF w] m' m1
        resetWorkoutTabs_memory(1) [OF resetWorkoutTabs_entries [OF ok]]
      by simp
  qed
  have marker: "getItem (localStorage t') lastResetKey = Some today"
    if run: "checkAndResetDailyWorkouts today t = (None, t')"
  proof (cases "getItem (localStorage t) lastResetKey = Some today")
    case True
    then show ?thesis using run by (simp add: checkAndResetDailyWorkouts_def)
  next
    case False
    then show ?thesis using stale run by blast
  qed
  then have again: "checkAndResetDailyWorkouts today t = (None, t') \<longrightarrow>
        getItem (localStorage t') lastResetKey = Some today
        \<and> checkAndResetDailyWorkouts today t' = (None, t')"
    by (simp add: checkAndResetDailyWorkouts_def)
  show ?thesis using again stale by (simp add: checkAndResetDailyWorkouts_def)
qed

theorem checkAndResetDailyWorkouts_once_per_day_witness:
  "getItem (localStorage example_stale) lastResetKey = Some ''2024-04-27''
   \<and> fst (checkAndResetDailyWorkouts example_today example_stale) = None
   \<and> getItem (localStorage (snd (checkAndResetDailyWorkouts example_today example_stale))) lastResetKey
       = Some example_today
   \<and> map_of (workoutState (snd (checkAndResetDailyWorkouts example_today example_stale))) ''Chest''
       = Some \<lparr>completed = False, order = 0\<rparr>
   \<and> map_of (workoutCounts (snd (checkAndResetDailyWorkouts example_today example_stale))) ''Chest''
       = Some (Num 0)
   \<and> workoutHistory (snd (checkAndResetDailyWorkouts example_today example_stale)) = []
   \<and> checkAndResetDailyWorkouts example_today
         (snd (checkAndResetDailyWorkouts example_today example_stale))
       = (None, snd (checkAndResetDailyWorkouts example_today example_stale))"
proof -
  have m: "getItem (localStorage example_stale) lastResetKey = Some ''2024-04-27''"
    by (simp add: example_stale_def getItem_def lastResetKey_def
        STORAGE_KEYS_LAST_RESET_PREFIX_def)
  have r: "fst (checkAndResetDailyWorkouts example_today example_stale) = None"
    by (simp add: example_stale_def example_chest_done_def example_tracker_def fresh_tracker_def workoutTypes_def example_today_def example_now_def
        checkAndResetDailyWorkouts_def resetDailyWorkouts_def resetWorkoutTabs_def saveState_def
        setItem_def getItem_def on_storage_def showToast_def stateKey_def countKey_def historyKey_def lastResetKey_def STORAGE_KEYS_LAST_RESET_PREFIX_def
        workoutState_json_def workoutCounts_json_def workoutHistory_json_def status_json_def entry_json_def
        quote_def escape_char_def Number_toString_def Number_digits_def digits.simps digit_char_def Let_def)
  then have run: "checkAndResetDailyWorkouts example_today example_stale
                    = (None, snd (checkAndResetDailyWorkouts example_today example_stale))"
    by (metis prod.collapse)
  have differs: "getItem (localStorage example_stale) lastResetKey \<noteq> Some example_today"
    using m by (simp add: example_today_def)
  have c: "''Chest'' \<in> set workoutTypes" "indexOf workoutTypes ''Chest'' = 0"
    by (simp_all add: workoutTypes_def)
  have h: "AList.delete example_today (workoutHistory example_stale) = []"
    by (simp add: example_stale_def example_chest_done_def)
  show ?thesis
    using m r run differs c h
      checkAndResetDailyWorkouts_once_per_day [of example_stale example_today
        "snd (checkAndResetDailyWorkouts example_today example_stale)"]
    by auto
qed

lemma showToast_memory [simp]:
  "workoutState (showToast m ty t) = workoutState t"
  "workoutCounts (showToast m ty t) = workoutCounts t"
  "workoutHistory (showToast m ty t) = workoutHistory t"
  "toasts (showToast m ty t) = toasts t @ [(m, ty)]"
  by (simp_all add: showToast_def)

lemma saveWorkoutHistory_memory:
  "workoutState (snd (saveWorkoutHistory d now ty t)) = workoutState t"
  "workoutCounts (snd (saveWorkoutHistory d now ty t)) = workoutCounts t"
  "toasts (snd (saveWorkoutHistory d now ty t)) = toasts t"
  "map_of (workoutHistory (snd (saveWorkoutHistory d now ty t)))
     = (map_of (workoutHistory t))
         (d \<mapsto> (case map_of (workoutHistory t) d of None \<Rightarrow> [] | Some entries \<Rightarrow> entries)
                @ [\<lparr>entry_type = ty, count = map_of (workoutCounts t) ty, timestamp = now\<rparr>])"
  by (simp_all add: saveWorkoutHistory_def Let_def update_conv' split: option.splits)

lemma update_keeps_other:
  "(k', v') \<in> set xs \<Longrightarrow> k' \<noteq> k \<Longrightarrow> (k', v') \<in> set (AList.update k v xs)"
  by (induction xs) auto

lemma allCompleted_iff:
  "allCompleted t \<longleftrightarrow> (\<forall>(ty, st) \<in> set (workoutState t). completed st)"
  by (simp add: allCompleted_def list_all_iff)

lemma toggleWorkout_clicked:
  "toggleWorkout d now ty t =
     andThen (clicked d now ty t)
       (\<lambda>t3. if allCompleted t3
              then andThen (resetWorkoutTabs t3)
                     (\<lambda>t4. (None, showToast ''All workouts completed! Tabs have been reset.'' ''success'' t4))
              else andThen (saveState t3)
                     (\<lambda>t4. (None, showToast (ty @ '' workout marked as complete!'') ''success'' t4)))"
  unfolding toggleWorkout_def clicked_def
  by (cases "mark_completed ty (count_click ty t)"; cases "fst (mark_completed ty (count_click ty t))")
     auto

lemma clicked_memory:
  assumes "map_of (workoutState t) ty = Some s"
  shows "workoutState (snd (clicked d now ty t)) = AList.update ty (s\<lparr>completed := True\<rparr>) (workoutState t)"
    and "workoutCounts (snd (clicked d now ty t))
           = AList.update ty (plus_one (map_of (workoutCounts t) ty)) (workoutCounts t)"
    and "toasts (snd (clicked d now ty t)) = toasts t"
    and "map_of (workoutHistory (snd (clicked d now ty t)))
           = (map_of (workoutHistory t))
               (d \<mapsto> (case map_of (workoutHistory t) d of None \<Rightarrow> [] | Some entries \<Rightarrow> entries)
                      @ [\<lparr>entry_type = ty, count = Some (plus_one (map_of (workoutCounts t) ty)),
                          timestamp = now\<rparr>])"
  using assms
  by (simp_all add: clicked_def mark_completed_def count_click_def saveWorkoutHistory_memory
      update_conv')

text \<open>With another type still open, the click is all that happens to the memory.\<close>

lemma toggleWorkout_open_memory:
  assumes st: "map_of (workoutState t) ty = Some s"
    and other: "(other, so) \<in> set (workoutState t)" "other \<noteq> ty" "\<not> completed so"
  shows "workoutState (snd (toggleWorkout d now ty t)) = workoutState (snd (clicked d now ty t))"
    and "workoutCounts (snd (toggleWorkout d now ty t)) = workoutCounts (snd (clicked d now ty t))"
    and "workoutHistory (snd (toggleWorkout d now ty t)) = workoutHistory (snd (clicked d now ty t))"
proof -
  obtain r t3 where c: "clicked d now ty t = (r, t3)" by (cases "clicked d now ty t")
  have "(other, so) \<in> set (workoutState t3)"
    using clicked_memory(1) [OF st, of d now] c other(1,2) by (simp add: update_keeps_other)
  then have open3: "\<not> allCompleted t3"
    using other(3) by (auto simp: allCompleted_iff)
  obtain r' t4 where sv: "saveState t3 = (r', t4)" by (cases "saveState t3")
  have m4: "workoutState t4 = workoutState t3" "workoutCounts t4 = workoutCounts t3"
    "workoutHistory t4 = workoutHistory t3"
    using saveState_memory [of t3] sv by simp_all
  show "workoutState (snd (toggleWorkout d now ty t)) = workoutState (snd (clicked d now ty t))"
    and "workoutCounts (snd (toggleWorkout d now ty t)) = workoutCounts (snd (clicked d now ty t))"
    and "workoutHistory (snd (toggleWorkout d now ty t)) = workoutHistory (snd (clicked d now ty t))"
    using c open3 sv m4 by (cases r; cases r'; simp add: toggleWorkout_clicked)+
qed

text \<open>
  Claim C9 (first click on Chest). With the count of Chest at 0, Chest not completed and
  some other type not completed, after \<open>toggleWorkout('Chest')\<close> the count of Chest is 1,
  Chest is completed, today's bucket of the history is the old bucket followed by the one
  new entry \<open>{type: 'Chest', count: 1, timestamp}\<close> whose timestamp is the value of
  \<open>new Date().toISOString()\<close>, and the buckets of all other dates are as before.
\<close>

theorem toggleWorkout_first_click:
  assumes "map_of (workoutCounts t) ''Chest'' = Some (Num 0)"
    and "map_of (workoutState t) ''Chest'' = Some s" and "\<not> completed s"
    and "(other, so) \<in> set (workoutState t)" and "other \<noteq> ''Chest''" and "\<not> completed so"
  shows "map_of (workoutCounts (snd (toggleWorkout today now ''Chest'' t))) ''Chest'' = Some (Num 1)
       \<and> map_of (workoutState (snd (toggleWorkout today now ''Chest'' t))) ''Chest''
           = Some (s\<lparr>completed := True\<rparr>)
       \<and> map_of (workoutHistory (snd (toggleWorkout today now ''Chest'' t))) today
           = Some ((case map_of (workoutHistory t) today of None \<Rightarrow> [] | Some entries \<Rightarrow> entries)
                   @ [\<lparr>entry_type = ''Chest'', count = Some (Num 1), timestamp = now\<rparr>])
       \<and> (\<forall>date. date \<noteq> today \<longrightarrow>
             map_of (workoutHistory (snd (toggleWorkout today now ''Chest'' t))) date
               = map_of (workoutHistory t) date)"
  using assms toggleWorkout_open_memory [OF assms(2,4,5,6), of today now]
    clicked_memory [OF assms(2), of today now]
  by (simp add: update_conv')

theorem toggleWorkout_first_click_witness:
  "map_of (workoutCounts example_tracker) ''Chest'' = Some (Num 0)
   \<and> map_of (workoutState example_tracker) ''Chest'' = Some \<lparr>completed = False, order = 0\<rparr>
   \<and> map_of (workoutCounts (snd (toggleWorkout example_today example_now ''Chest'' example_tracker))) ''Chest''
       = Some (Num 1)
   \<and> map_of (workoutState (snd (toggleWorkout example_today example_now ''Chest'' example_tracker))) ''Chest''
       = Some \<lparr>completed = True, order = 0\<rparr>
   \<and> map_of (workoutHistory (snd (toggleWorkout example_today example_now ''Chest'' example_tracker)))
         example_today
       = Some [\<lparr>entry_type = ''Chest'', count = Some (Num 1), timestamp = example_now\<rparr>]"
proof -
  have h1: "map_of (workoutCounts example_tracker) ''Chest'' = Some (Num 0)"
    by (simp add: example_tracker_def fresh_tracker_def workoutTypes_def)
  have h2: "map_of (workoutState example_tracker) ''Chest'' = Some \<lparr>completed = False, order = 0\<rparr>"
    by (simp add: example_tracker_def fresh_tracker_def workoutTypes_def)
  have h3: "\<not> completed \<lparr>completed = False, order = 0\<rparr>" by simp
  have h4: "(''Back'', \<lparr>completed = False, order = 1\<rparr>) \<in> set (workoutState example_tracker)"
    by (simp add: example_tracker_def fresh_tracker_def workoutTypes_def)
  have h5: "''Back'' \<noteq> ''Chest''" by simp
  have h6: "\<not> completed \<lparr>completed = False, order = 1\<rparr>" by simp
  have e: "workoutHistory example_tracker = []" by (simp add: example_tracker_def fresh_tracker_def workoutTypes_def)
  show ?thesis
    using h1 h2 e toggleWorkout_first_click [OF h1 h2 h3 h4 h5 h6, of example_today example_now]
    by simp
qed

text \<open>
  Claim C10 as stated fails: it says that every click on a completed type raises its count
  by one. Counts are doubles, and a stored \<open>workout_count\<close> can hold \<open>2^53\<close>: with Chest
  completed at that count and Back not completed, after \<open>toggleWorkout('Chest')\<close> the
  count is still \<open>2^53\<close>, not \<open>2^53 + 1\<close>.
\<close>

theorem toggleWorkout_count_stops_at_2_53:
  "map_of (workoutState example_chest_at_2_53) ''Chest'' = Some \<lparr>completed = True, order = 0\<rparr>
   \<and> map_of (workoutCounts example_chest_at_2_53) ''Chest'' = Some (Num 9007199254740992)
   \<and> (''Back'', \<lparr>completed = False, order = 1\<rparr>) \<in> set (workoutState example_chest_at_2_53)
   \<and> map_of (workoutCounts
         (snd (toggleWorkout example_today example_now ''Chest'' example_chest_at_2_53))) ''Chest''
       = Some (Num 9007199254740992)
   \<and> map_of (workoutCounts
         (snd (toggleWorkout example_today example_now ''Chest'' example_chest_at_2_53))) ''Chest''
       \<noteq> Some (Num (9007199254740992 + 1))"
proof -
  have h1: "map_of (workoutState example_chest_at_2_53) ''Chest'' = Some \<lparr>completed = True, order = 0\<rparr>"
    by (simp add: example_chest_at_2_53_def example_chest_done_def example_tracker_def
        fresh_tracker_def workoutTypes_def)
  have h3: "map_of (workoutCounts example_chest_at_2_53) ''Chest'' = Some (Num 9007199254740992)"
    by (simp add: example_chest_at_2_53_def example_chest_done_def example_tracker_def
        fresh_tracker_def workoutTypes_def)
  have h4: "(''Back'', \<lparr>completed = False, order = 1\<rparr>) \<in> set (workoutState example_chest_at_2_53)"
    by (simp add: example_chest_at_2_53_def example_chest_done_def example_tracker_def
        fresh_tracker_def workoutTypes_def)
  have h5: "''Back'' \<noteq> ''Chest''" by simp
  have h6: "\<not> completed \<lparr>completed = False, order = 1\<rparr>" by simp
  have "map_of (workoutCounts
          (snd (toggleWorkout example_today example_now ''Chest'' example_chest_at_2_53))) ''Chest''
        = Some (Num (to_double 9007199254740993))"
    using h3 toggleWorkout_open_memory(2) [OF h1 h4 h5 h6, of example_today example_now]
      clicked_memory(2) [OF h1, of example_today example_now]
    by (simp add: update_conv')
  then show ?thesis using h1 h3 h4 by (simp add: to_double_above)
qed

text \<open>
  Claim C10, amended (the toggle is one-way). For a type that is already completed, with
  count \<open>n\<close>, while some other type is not completed: after \<open>toggleWorkout\<close> the type is
  still completed, every entry that was completed before is unchanged, the count is
  \<open>n + 1\<close> rounded to a double, and today's bucket has one more entry, carrying the new
  count. The new count is \<open>n + 1\<close> whenever \<open>-2^53 \<le> n < 2^53\<close>, and for a count \<open>n\<close> that
  is a double it is \<open>n + 1\<close> only then.
\<close>

theorem toggleWorkout_never_clears:
  assumes "map_of (workoutState t) type = Some s" and "completed s"
    and "map_of (workoutCounts t) type = Some (Num n)"
    and "(other, so) \<in> set (workoutState t)" and "other \<noteq> type" and "\<not> completed so"
  shows "map_of (workoutState (snd (toggleWorkout today now type t))) type = Some s
       \<and> (\<forall>ty st. map_of (workoutState t) ty = Some st \<and> completed st \<longrightarrow>
             map_of (workoutState (snd (toggleWorkout today now type t))) ty = Some st)
       \<and> map_of (workoutCounts (snd (toggleWorkout today now type t))) type
           = Some (Num (to_double (n + 1)))
       \<and> (- (2 ^ 53) \<le> n \<and> n < 2 ^ 53 \<longrightarrow>
             map_of (workoutCounts (snd (toggleWorkout today now type t))) type = Some (Num (n + 1)))
       \<and> (to_double n = n \<longrightarrow>
             (map_of (workoutCounts (snd (toggleWorkout today now type t))) type = Some (Num (n + 1))
                \<longleftrightarrow> - (2 ^ 53) \<le> n \<and> n < 2 ^ 53))
       \<and> map_of (workoutHistory (snd (toggleWorkout today now type t))) today
           = Some ((case map_of (workoutHistory t) today of None \<Rightarrow> [] | Some entries \<Rightarrow> entries)
                   @ [\<lparr>entry_type = type, count = Some (Num (to_double (n + 1))), timestamp = now\<rparr>])"
proof -
  have same: "s\<lparr>completed := True\<rparr> = s" using assms(2) by (cases s) simp
  have mem: "map_of (workoutState (snd (toggleWorkout today now type t))) type = Some s
       \<and> (\<forall>ty st. map_of (workoutState t) ty = Some st \<and> completed st \<longrightarrow>
             map_of (workoutState (snd (toggleWorkout today now type t))) ty = Some st)
       \<and> map_of (workoutCounts (snd (toggleWorkout today now type t))) type
           = Some (Num (to_double (n + 1)))
       \<and> map_of (workoutHistory (snd (toggleWorkout today now type t))) today
           = Some ((case map_of (workoutHistory t) today of None \<Rightarrow> [] | Some entries \<Rightarrow> entries)
                   @ [\<lparr>entry_type = type, count = Some (Num (to_double (n + 1))), timestamp = now\<rparr>])"
    using assms(1,3) same toggleWorkout_open_memory [OF assms(1,4,5,6), of today now]
      clicked_memory [OF assms(1), of today now]
    by (auto simp: update_conv')
  have exact: "- (2 ^ 53) \<le> n \<and> n < 2 ^ 53 \<Longrightarrow> to_double (n + 1) = n + 1"
    by simp
  have only: "to_double n = n \<Longrightarrow> to_double (n + 1) = n + 1 \<longleftrightarrow> - (2 ^ 53) \<le> n \<and> n < 2 ^ 53"
    using to_double_plus_one_iff [of n] by simp
  show ?thesis using mem exact only by simp
qed

theorem toggleWorkout_never_clears_witness:
  "map_of (workoutState example_chest_done) ''Chest'' = Some \<lparr>completed = True, order = 0\<rparr>
   \<and> map_of (workoutCounts example_chest_done) ''Chest'' = Some (Num 1)
   \<and> - (2 ^ 53) \<le> (1::int) \<and> (1::int) < 2 ^ 53 \<and> to_double 1 = 1
   \<and> map_of (workoutState (snd (toggleWorkout example_today example_now ''Chest'' example_chest_done))) ''Chest''
       = Some \<lparr>completed = True, order = 0\<rparr>
   \<and> map_of (workoutCounts (snd (toggleWorkout example_today example_now ''Chest'' example_chest_done))) ''Chest''
       = Some (Num 2)
   \<and> map_of (workoutHistory (snd (toggleWorkout example_today example_now ''Chest'' example_chest_done)))
         example_today
       = Some [\<lparr>entry_type = ''Chest'', count = Some (Num 1), timestamp = example_now\<rparr>,
               \<lparr>entry_type = ''Chest'', count = Some (Num 2), timestamp = example_now\<rparr>]"
proof -
  have h1: "map_of (workoutState example_chest_done) ''Chest'' = Some \<lparr>completed = True, order = 0\<rparr>"
    by (simp add: example_chest_done_def example_tracker_def fresh_tracker_def workoutTypes_def example_today_def example_now_def)
  have h2: "completed \<lparr>completed = True, order = 0\<rparr>" by simp
  have h3: "map_of (workoutCounts example_chest_done) ''Chest'' = Some (Num 1)"
    by (simp add: example_chest_done_def example_tracker_def fresh_tracker_def workoutTypes_def example_today_def example_now_def)
  have h4: "(''Back'', \<lparr>completed = False, order = 1\<rparr>) \<in> set (workoutState example_chest_done)"
    by (simp add: example_chest_done_def example_tracker_def fresh_tracker_def workoutTypes_def example_today_def example_now_def)
  have h5: "''Back'' \<noteq> ''Chest''" by simp
  have h6: "\<not> completed \<lparr>completed = False, order = 1\<rparr>" by simp
  have e: "map_of (workoutHistory example_chest_done) example_today
             = Some [\<lparr>entry_type = ''Chest'', count = Some (Num 1), timestamp = example_now\<rparr>]"
    by (simp add: example_chest_done_def example_tracker_def fresh_tracker_def workoutTypes_def example_today_def example_now_def)
  show ?thesis
    using h1 h3 e toggleWorkout_never_clears [OF h1 h2 h3 h4 h5 h6, of example_today example_now]
    by simp
qed

text \<open>
  Claim C4 (all complete). \<open>allCompleted\<close> holds exactly when every entry of the workout
  state is completed. For a call of \<open>toggleWorkout\<close> that completes: if, once the click is
  recorded, all entries are completed, the call ran \<open>resetWorkoutTabs\<close> once on that state
  (every workout type is then not completed, in canonical order, with count 0), the
  history is the one with the click recorded (the reset does not touch it), and the one
  toast added is "All workouts completed! Tabs have been reset."; otherwise state,
  counts and history are those with the click recorded and the one toast added is the
  ordinary "... workout marked as complete!".
\<close>

theorem toggleWorkout_all_complete:
  assumes run: "toggleWorkout today now type t = (None, t')"
  shows "\<exists>t3. clicked today now type t = (None, t3)
           \<and> (allCompleted t3 \<longleftrightarrow> (\<forall>(ty, st) \<in> set (workoutState t3). completed st))
           \<and> (allCompleted t3 \<longrightarrow>
                 (\<exists>t4. resetWorkoutTabs t3 = (None, t4)
                    \<and> t' = showToast ''All workouts completed! Tabs have been reset.'' ''success'' t4)
                 \<and> (\<forall>ty \<in> set workoutTypes.
                       map_of (workoutState t') ty
                         = Some \<lparr>completed = False, order = indexOf workoutTypes ty\<rparr>
                       \<and> map_of (workoutCounts t') ty = Some (Num 0))
                 \<and> workoutHistory t' = workoutHistory t3
                 \<and> toasts t' = toasts t @ [(''All workouts completed! Tabs have been reset.'', ''success'')])
           \<and> (\<not> allCompleted t3 \<longrightarrow>
                 workoutState t' = workoutState t3 \<and> workoutCounts t' = workoutCounts t3
                 \<and> workoutHistory t' = workoutHistory t3
                 \<and> toasts t' = toasts t @ [(type @ '' workout marked as complete!'', ''success'')])"
proof -
  from run obtain t3 where c: "clicked today now type t = (None, t3)"
    and rest: "(if allCompleted t3
              then andThen (resetWorkoutTabs t3)
                     (\<lambda>t4. (None, showToast ''All workouts completed! Tabs have been reset.'' ''success'' t4))
              else andThen (saveState t3)
                     (\<lambda>t4. (None, showToast (type @ '' workout marked as complete!'') ''success'' t4)))
             = (None, t')"
    unfolding toggleWorkout_clicked andThen_None by blast
  obtain t2 where mk: "mark_completed type (count_click type t) = (None, t2)"
    and sh: "saveWorkoutHistory today now type t2 = (None, t3)"
    using c unfolding clicked_def andThen_None by blast
  have t2: "toasts t2 = toasts t"
    using mk by (auto simp: mark_completed_def count_click_def split: option.splits)
  have toasts3: "toasts t3 = toasts t"
    using saveWorkoutHistory_memory(3) [of today now type t2] sh t2 by simp
  have finished: "allCompleted t3 \<longrightarrow>
                 (\<exists>t4. resetWorkoutTabs t3 = (None, t4)
                    \<and> t' = showToast ''All workouts completed! Tabs have been reset.'' ''success'' t4)
                 \<and> (\<forall>ty \<in> set workoutTypes.
                       map_of (workoutState t') ty
                         = Some \<lparr>completed = False, order = indexOf workoutTypes ty\<rparr>
                       \<and> map_of (workoutCounts t') ty = Some (Num 0))
                 \<and> workoutHistory t' = workoutHistory t3
                 \<and> toasts t' = toasts t @ [(''All workouts completed! Tabs have been reset.'', ''success'')]"
  proof
    assume a: "allCompleted t3"
    then have "andThen (resetWorkoutTabs t3)
                 (\<lambda>t4. (None, showToast ''All workouts completed! Tabs have been reset.'' ''success'' t4))
               = (None, t')"
      using rest by simp
    then obtain t4 where r4: "resetWorkoutTabs t3 = (None, t4)"
      and t': "t' = showToast ''All workouts completed! Tabs have been reset.'' ''success'' t4"
      unfolding andThen_None by auto
    obtain rr tm where rs: "reset_states workoutTypes t3 = (rr, tm)"
      by (cases "reset_states workoutTypes t3")
    have "rr = None" using r4 rs by (cases rr) (simp_all add: resetWorkoutTabs_def)
    then have sv: "saveState (reset_counts workoutTypes tm) = (None, t4)"
      using r4 rs by (simp add: resetWorkoutTabs_def)
    have keep: "\<And>types (u :: 'a tracker_scheme) r u'. reset_states types u = (r, u') \<Longrightarrow>
                  workoutHistory u' = workoutHistory u \<and> toasts u' = toasts u"
    proof -
      fix types and u :: "'a tracker_scheme" and r u'
      show "reset_states types u = (r, u') \<Longrightarrow> workoutHistory u' = workoutHistory u \<and> toasts u' = toasts u"
        by (induction types arbitrary: u) (auto split: option.splits)
    qed
    have hm: "workoutHistory tm = workoutHistory t3" "toasts tm = toasts t3"
      using keep [OF rs] by simp_all
    have "fst (resetWorkoutTabs t3) = None" using r4 by simp
    from resetWorkoutTabs_memory(1) [OF resetWorkoutTabs_entries [OF this]]
    have reset4: "\<forall>ty \<in> set workoutTypes.
                    map_of (workoutState t4) ty
                      = Some \<lparr>completed = False, order = indexOf workoutTypes ty\<rparr>
                    \<and> map_of (workoutCounts t4) ty = Some (Num 0)"
      using r4 by simp
    have h4: "workoutHistory t4 = workoutHistory t3" "toasts t4 = toasts t3"
      using saveState_memory(3,4) [of "reset_counts workoutTypes tm"] sv hm by simp_all
    show "(\<exists>t4. resetWorkoutTabs t3 = (None, t4)
                    \<and> t' = showToast ''All workouts completed! Tabs have been reset.'' ''success'' t4)
                 \<and> (\<forall>ty \<in> set workoutTypes.
                       map_of (workoutState t') ty
                         = Some \<lparr>completed = False, order = indexOf workoutTypes ty\<rparr>
                       \<and> map_of (workoutCounts t') ty = Some (Num 0))
                 \<and> workoutHistory t' = workoutHistory t3
                 \<and> toasts t' = toasts t @ [(''All workouts completed! Tabs have been reset.'', ''success'')]"
      using r4 t' h4 toasts3 reset4 by simp
  qed
  have plain: "\<not> allCompleted t3 \<longrightarrow>
                 workoutState t' = workoutState t3 \<and> workoutCounts t' = workoutCounts t3
                 \<and> workoutHistory t' = workoutHistory t3
                 \<and> toasts t' = toasts t @ [(type @ '' workout marked as complete!'', ''success'')]"
  proof
    assume a: "\<not> allCompleted t3"
    then have "andThen (saveState t3)
                 (\<lambda>t4. (None, showToast (type @ '' workout marked as complete!'') ''success'' t4))
               = (None, t')"
      using rest by simp
    then obtain t4 where s4: "saveState t3 = (None, t4)"
      and t': "t' = showToast (type @ '' workout marked as complete!'') ''success'' t4"
      unfolding andThen_None by auto
    have "workoutState t4 = workoutState t3" "workoutCounts t4 = workoutCounts t3"
      "workoutHistory t4 = workoutHistory t3" "toasts t4 = toasts t3"
      using saveState_memory [of t3] s4 by simp_all
    then show "workoutState t' = workoutState t3 \<and> workoutCounts t' = workoutCounts t3
                 \<and> workoutHistory t' = workoutHistory t3
                 \<and> toasts t' = toasts t @ [(type @ '' workout marked as complete!'', ''success'')]"
      using t' toasts3 by simp
  qed
  show ?thesis using c finished plain allCompleted_iff [of t3] by blast
qed

theorem toggleWorkout_all_complete_witness:
  "fst (toggleWorkout example_today example_now ''Legs'' example_legs_left) = None
   \<and> allCompleted (snd (clicked example_today example_now ''Legs'' example_legs_left))
   \<and> toasts (snd (toggleWorkout example_today example_now ''Legs'' example_legs_left))
       = [(''All workouts completed! Tabs have been reset.'', ''success'')]
   \<and> workoutHistory (snd (toggleWorkout example_today example_now ''Legs'' example_legs_left))
       = [(example_today, [\<lparr>entry_type = ''Legs'', count = Some (Num 1), timestamp = example_now\<rparr>])]"
proof -
  let ?run = "toggleWorkout example_today example_now ''Legs'' example_legs_left"
  let ?click = "clicked example_today example_now ''Legs'' example_legs_left"
  have r: "fst ?run = None"
    by (simp add: example_legs_left_def example_tracker_def fresh_tracker_def workoutTypes_def example_today_def example_now_def
        toggleWorkout_def clicked_def mark_completed_def count_click_def saveWorkoutHistory_def
        allCompleted_def resetWorkoutTabs_def saveState_def setItem_def getItem_def on_storage_def showToast_def stateKey_def countKey_def historyKey_def
        workoutState_json_def workoutCounts_json_def workoutHistory_json_def status_json_def entry_json_def
        quote_def escape_char_def Number_toString_def Number_digits_def digits.simps digit_char_def Let_def)
  then have run: "?run = (None, snd ?run)" by (metis prod.collapse)
  have a: "allCompleted (snd ?click)"
    by (simp add: example_legs_left_def example_tracker_def fresh_tracker_def workoutTypes_def example_today_def example_now_def
        toggleWorkout_def clicked_def mark_completed_def count_click_def saveWorkoutHistory_def
        allCompleted_def resetWorkoutTabs_def saveState_def setItem_def getItem_def on_storage_def showToast_def stateKey_def countKey_def historyKey_def
        workoutState_json_def workoutCounts_json_def workoutHistory_json_def status_json_def entry_json_def
        quote_def escape_char_def Number_toString_def Number_digits_def digits.simps digit_char_def Let_def)
  have h: "workoutHistory (snd ?click)
             = [(example_today, [\<lparr>entry_type = ''Legs'', count = Some (Num 1), timestamp = example_now\<rparr>])]"
    by (simp add: example_legs_left_def example_tracker_def fresh_tracker_def workoutTypes_def example_today_def example_now_def
        toggleWorkout_def clicked_def mark_completed_def count_click_def saveWorkoutHistory_def
        allCompleted_def resetWorkoutTabs_def saveState_def setItem_def getItem_def on_storage_def showToast_def stateKey_def countKey_def historyKey_def
        workoutState_json_def workoutCounts_json_def workoutHistory_json_def status_json_def entry_json_def
        quote_def escape_char_def Number_toString_def Number_digits_def digits.simps digit_char_def Let_def)
  have t: "toasts example_legs_left = []" by (simp add: example_legs_left_def example_tracker_def fresh_tracker_def workoutTypes_def example_today_def example_now_def)
  from toggleWorkout_all_complete [OF run]
  obtain t3 where c: "?click = (None, t3)"
    and fin: "allCompleted t3 \<longrightarrow>
                workoutHistory (snd ?run) = workoutHistory t3
                \<and> toasts (snd ?run)
                    = toasts example_legs_left @ [(''All workouts completed! Tabs have been reset.'', ''success'')]"
    by blast
  have "t3 = snd ?click" using c by simp
  then show ?thesis using r a h t fin by simp
qed

section \<open>Display order\<close>

lemma insert_open:
  assumes "\<not> completed (snd x)"
    and "\<forall>a \<in> set A. \<not> completed (snd a)" and "\<forall>b \<in> set B. completed (snd b)"
  shows "insert_by (\<lambda>(ta, a) (tb, b). compareWorkouts a b) x (A @ B)
           = insort_key (\<lambda>(ty, st). order st) x A @ B"
  using assms(2)
proof (induction A)
  case Nil
  show ?case using assms(1,3) by (cases B) (auto simp: compareWorkouts_def split: prod.splits)
next
  case (Cons a A)
  then show ?case using assms(1) by (auto simp: compareWorkouts_def split: prod.splits)
qed

lemma insert_completed_tail:
  assumes "completed (snd x)" and "\<forall>b \<in> set B. completed (snd b)"
  shows "insert_by (\<lambda>(ta, a) (tb, b). compareWorkouts a b) x B = insort_key (\<lambda>(ty, st). order st) x B"
  using assms(2)
proof (induction B)
  case Nil
  show ?case by simp
next
  case (Cons b B)
  then show ?case using assms(1) by (auto simp: compareWorkouts_def split: prod.splits)
qed

lemma insert_completed:
  assumes "completed (snd x)"
    and "\<forall>a \<in> set A. \<not> completed (snd a)" and "\<forall>b \<in> set B. completed (snd b)"
  shows "insert_by (\<lambda>(ta, a) (tb, b). compareWorkouts a b) x (A @ B)
           = A @ insort_key (\<lambda>(ty, st). order st) x B"
  using assms(2)
proof (induction A)
  case Nil
  show ?case using insert_completed_tail [OF assms(1,3)] by simp
next
  case (Cons a A)
  then show ?case using assms(1) by (auto simp: compareWorkouts_def split: prod.splits)
qed

lemma sort_by_partition:
  "sort_by (\<lambda>(ta, a) (tb, b). compareWorkouts a b) ws
     = sort_key (\<lambda>(ty, st). order st) (filter (\<lambda>(ty, st). \<not> completed st) ws)
       @ sort_key (\<lambda>(ty, st). order st) (filter (\<lambda>(ty, st). completed st) ws)"
proof (induction ws)
  case Nil
  show ?case by (simp add: sort_by_def)
next
  case (Cons x ws)
  let ?A = "sort_key (\<lambda>(ty, st). order st) (filter (\<lambda>(ty, st). \<not> completed st) ws)"
  let ?B = "sort_key (\<lambda>(ty, st). order st) (filter (\<lambda>(ty, st). completed st) ws)"
  have A: "\<forall>a \<in> set ?A. \<not> completed (snd a)" and B: "\<forall>b \<in> set ?B. completed (snd b)"
    by auto
  have rec: "sort_by (\<lambda>(ta, a) (tb, b). compareWorkouts a b) (x # ws)
               = insert_by (\<lambda>(ta, a) (tb, b). compareWorkouts a b) x (?A @ ?B)"
    using Cons.IH by (simp add: sort_by_def)
  obtain ty st where x: "x = (ty, st)" by (cases x)
  show ?case
  proof (cases "completed st")
    case True
    then have "completed (snd x)" using x by simp
    from insert_completed [OF this A B] show ?thesis
      using rec True x by simp
  next
    case False
    then have "\<not> completed (snd x)" using x by simp
    from insert_open [OF this A B] show ?thesis
      using rec False x by simp
  qed
qed

text \<open>
  Claim C8 (display order). The tabs are listed in the order \<open>sortedWorkouts\<close> gives to the
  workout state: the entries that are not completed, sorted by \<open>order\<close> ascending, then the
  completed entries, sorted by \<open>order\<close> ascending (entries of equal order keep their
  relative place). The click counts play no part: for types A, B, C with orders 0, 1, 2
  and only B completed, the tabs read A, C, B for any counts.
\<close>

theorem display_order_by_completion_then_order:
  "map tab_type (renderWorkoutTabs t) = sortedWorkouts (workoutState t)
   \<and> sortedWorkouts ws
       = map fst (sort_key (\<lambda>(type, state). order state)
                    (filter (\<lambda>(type, state). \<not> completed state) ws))
         @ map fst (sort_key (\<lambda>(type, state). order state)
                      (filter (\<lambda>(type, state). completed state) ws))
   \<and> map tab_type
         (renderWorkoutTabs
            (t\<lparr>workoutState := [(A, \<lparr>completed = False, order = 0\<rparr>),
                                 (B, \<lparr>completed = True, order = 1\<rparr>),
                                 (C, \<lparr>completed = False, order = 2\<rparr>)],
               workoutCounts := counts\<rparr>))
       = [A, C, B]"
proof -
  have r: "\<And>u :: 'a tracker_scheme. map tab_type (renderWorkoutTabs u) = sortedWorkouts (workoutState u)"
    by (simp add: renderWorkoutTabs_def Let_def comp_def)
  have s: "sortedWorkouts [(A, \<lparr>completed = False, order = 0\<rparr>),
                           (B, \<lparr>completed = True, order = 1\<rparr>),
                           (C, \<lparr>completed = False, order = 2\<rparr>)] = [A, C, B]"
    by (simp add: sortedWorkouts_def sort_by_def compareWorkouts_def)
  show ?thesis
    using r s by (simp add: sortedWorkouts_def sort_by_partition)
qed

theorem display_order_by_completion_then_order_witness:
  "map tab_type
     (renderWorkoutTabs
        (example_tracker
           \<lparr>workoutState := [(''Chest'', \<lparr>completed = False, order = 0\<rparr>),
                             (''Back'', \<lparr>completed = True, order = 1\<rparr>),
                             (''Legs'', \<lparr>completed = False, order = 2\<rparr>)],
            workoutCounts := [(''Chest'', Num 0), (''Back'', Num 7), (''Legs'', Num 3)]\<rparr>))
   = [''Chest'', ''Legs'', ''Back'']"
  using display_order_by_completion_then_order
    [where t = example_tracker and ws = "[]" and A = "''Chest''" and B = "''Back''"
       and C = "''Legs''" and counts = "[(''Chest'', Num 0), (''Back'', Num 7), (''Legs'', Num 3)]"]
  by simp

section \<open>Storage clean-up: the 90-day retention\<close>

lemma historyKeys_eq:
  "historyKeys = [''history_water'', ''history_protein'', ''workout_history'', ''habits_data'']"
  by (simp add: historyKeys_def STORAGE_KEYS_HISTORY_PREFIX_def)

lemma getItem_setItem_other:
  "k' \<noteq> k \<Longrightarrow> getItem (snd (setItem k' v ls)) k = getItem ls k"
  by (simp add: setItem_def getItem_def Let_def update_conv')

lemma getItem_setItem_same:
  "setItem k v ls = (None, ls') \<Longrightarrow> getItem ls' k = Some v"
  by (auto simp: setItem_def getItem_def Let_def update_conv' split: if_splits)

lemma setItem_accepted:
  "usage_of (AList.update k v (items ls)) \<le> quota ls \<Longrightarrow>
   setItem k v ls = (None, ls\<lparr>items := AList.update k v (items ls)\<rparr>)"
  by (simp add: setItem_def)

lemma setItem_cases:
  "setItem k v ls = (None, ls\<lparr>items := AList.update k v (items ls)\<rparr>)
   \<or> setItem k v ls = (Some QuotaExceededError, ls)"
  by (simp add: setItem_def Let_def)

lemma touches_only_setItem: "touches_only k ls (snd (setItem k v ls))"
  using setItem_cases [of k v ls] by (auto simp: touches_only_def)

lemma touches_only_refl: "touches_only k ls ls"
  by (simp add: touches_only_def)

lemma cleanup_habits_data_touches_only: "touches_only k (snd acc) (snd (cleanup_habits_data k history acc))"
proof (cases acc)
  case (Pair cleanedUp ls)
  show ?thesis
  proof (cases history)
    case (JArr habits)
    obtain r flag where ph: "prune_habits habits cleanedUp = (r, flag)"
      by (cases "prune_habits habits cleanedUp")
    show ?thesis
      using Pair JArr ph
      by (cases r) (simp_all add: cleanup_habits_data_def touches_only_refl touches_only_setItem)
  qed (simp_all add: Pair cleanup_habits_data_def touches_only_refl)
qed

lemma cleanup_date_history_touches_only: "touches_only k (snd acc) (snd (cleanup_date_history k history acc))"
proof (cases acc)
  case (Pair cleanedUp ls)
  show ?thesis
  proof (cases "prune_dates history")
    case None
    then show ?thesis by (simp add: Pair cleanup_date_history_def touches_only_refl)
  next
    case (Some pr)
    obtain history' removed where pr: "pr = (history', removed)" by (cases pr)
    show ?thesis
      using Pair Some pr setItem_cases [of k "stringify history'" ls]
      by (auto simp: cleanup_date_history_def touches_only_def)
  qed
qed

lemma cleanup_key_touches_only: "touches_only k (snd acc) (snd (cleanup_key P k acc))"
  by (simp add: cleanup_key_def touches_only_refl cleanup_habits_data_touches_only
      cleanup_date_history_touches_only split: option.splits)

lemma touches_only_other: "touches_only k' ls ls' \<Longrightarrow> k' \<noteq> k \<Longrightarrow> getItem ls' k = getItem ls k"
  by (auto simp: touches_only_def getItem_def update_conv')

lemma touches_only_quota: "touches_only k' ls ls' \<Longrightarrow> quota ls' = quota ls"
  by (auto simp: touches_only_def)

lemma cleanup_key_other:
  "k' \<noteq> k \<Longrightarrow> getItem (snd (cleanup_key P k' acc)) k = getItem (snd acc) k"
  using cleanup_key_touches_only touches_only_other by blast

lemma cleanup_key_quota: "quota (snd (cleanup_key P k' acc)) = quota (snd acc)"
  using cleanup_key_touches_only touches_only_quota by blast

lemma prune_habits_flag: "cleanedUp \<Longrightarrow> snd (prune_habits habits cleanedUp)"
proof (induction habits arbitrary: cleanedUp)
  case Nil
  then show ?case by simp
next
  case (Cons habit rest)
  show ?case
  proof (cases "prune_habit habit")
    case None
    then show ?thesis using Cons.prems by simp
  next
    case (Some pr)
    obtain habit' removed where pr: "pr = (habit', removed)" by (cases pr)
    obtain r flag where rec: "prune_habits rest (cleanedUp \<or> removed) = (r, flag)"
      by (cases "prune_habits rest (cleanedUp \<or> removed)")
    have "flag" using Cons.IH [of "cleanedUp \<or> removed"] Cons.prems rec by simp
    then show ?thesis using Some pr rec by (cases r) simp_all
  qed
qed

lemma cleanup_habits_data_flag: "fst acc \<Longrightarrow> fst (cleanup_habits_data k history acc)"
proof (cases acc)
  case (Pair cleanedUp ls)
  assume "fst acc"
  then have c: cleanedUp using Pair by simp
  show ?thesis
  proof (cases history)
    case (JArr habits)
    obtain r flag where ph: "prune_habits habits cleanedUp = (r, flag)"
      by (cases "prune_habits habits cleanedUp")
    have "flag" using prune_habits_flag [OF c, of habits] ph by simp
    then show ?thesis
      using Pair JArr ph by (cases r) (simp_all add: cleanup_habits_data_def)
  qed (simp_all add: Pair c cleanup_habits_data_def)
qed

lemma cleanup_date_history_flag: "fst acc \<Longrightarrow> fst (cleanup_date_history k history acc)"
proof (cases acc)
  case (Pair cleanedUp ls)
  assume "fst acc"
  then have c: cleanedUp using Pair by simp
  show ?thesis
  proof (cases "prune_dates history")
    case None
    then show ?thesis by (simp add: Pair c cleanup_date_history_def)
  next
    case (Some pr)
    obtain history' removed where pr: "pr = (history', removed)" by (cases pr)
    show ?thesis
      using Pair c Some pr setItem_cases [of k "stringify history'" ls]
      by (auto simp: cleanup_date_history_def)
  qed
qed

lemma cleanup_key_flag: "fst acc \<Longrightarrow> fst (cleanup_key P k acc)"
  by (simp add: cleanup_key_def cleanup_habits_data_flag cleanup_date_history_flag
      split: option.splits)

lemma fold_delete_property_obj:
  "fold delete_property ks (JObj h) = JObj (filter (\<lambda>(d, v). d \<notin> set ks) h)"
proof (induction ks arbitrary: h)
  case Nil
  then show ?case by simp
next
  case (Cons k ks)
  have "filter (\<lambda>(d, v). d \<notin> set ks) (AList.delete k h) = filter (\<lambda>(d, v). d \<notin> set (k # ks)) h"
    by (induction h) auto
  then show ?case using Cons.IH [of "AList.delete k h"] by simp
qed

lemma take_drop_sorted_less:
  fixes xs :: "('a :: linorder) list"
  assumes "sorted xs" and "distinct xs" and "r \<in> set (take m xs)" and "d \<in> set (drop m xs)"
  shows "r < d"
proof -
  have s: "sorted (take m xs @ drop m xs)" and di: "distinct (take m xs @ drop m xs)"
    using assms(1,2) by simp_all
  have "r \<le> d" using s assms(3,4) unfolding sorted_append by blast
  moreover have "r \<noteq> d" using di assms(3,4) unfolding distinct_append by blast
  ultimately show ?thesis by simp
qed

lemma in_drop_iff_notin_take:
  assumes "distinct xs" and "d \<in> set xs"
  shows "d \<in> set (drop m xs) \<longleftrightarrow> d \<notin> set (take m xs)"
proof -
  have "set xs = set (take m xs) \<union> set (drop m xs)"
    by (metis append_take_drop_id set_append)
  moreover have "set (take m xs) \<inter> set (drop m xs) = {}"
    using assms(1) by (metis append_take_drop_id distinct_append)
  ultimately show ?thesis using assms(2) by blast
qed

text \<open>What the retention rule makes of an object with distinct member names.\<close>

lemma prune_dates_object:
  fixes h :: "(string \<times> json) list"
  assumes dist: "distinct (map fst h)"
  defines "dates \<equiv> sort (map fst h)"
  defines "kept \<equiv> drop (length h - 90) dates"
  defines "h' \<equiv> filter (\<lambda>(d, v). d \<in> set kept) h"
  shows "length h \<le> 90 \<Longrightarrow> prune_dates (JObj h) = Some (JObj h, False)"
    and "90 < length h \<Longrightarrow> prune_dates (JObj h) = Some (JObj h', True)"
    and "90 < length h \<Longrightarrow> length h' = 90"
    and "map fst h' = filter (\<lambda>d. d \<in> set kept) (map fst h)"
    and "set (map fst h') = set kept"
    and "r \<in> set (map fst h) \<Longrightarrow> r \<notin> set kept \<Longrightarrow> d \<in> set kept \<Longrightarrow> r < d"
proof -
  have len: "length dates = length h" by (simp add: dates_def)
  have sd: "sorted dates" "distinct dates" "set dates = set (map fst h)"
    using dist by (simp_all add: dates_def)
  show "length h \<le> 90 \<Longrightarrow> prune_dates (JObj h) = Some (JObj h, False)"
    by (simp add: prune_dates_def)
  have same: "filter (\<lambda>(d, v). d \<notin> set (take (length h - 90) dates)) h = h'"
    unfolding h'_def kept_def
  proof (rule filter_cong [OF refl])
    fix x assume x: "x \<in> set h"
    obtain d v where dv: "x = (d, v)" by (cases x)
    have "d \<in> set dates" using x dv sd(3) by force
    then show "(case x of (d, v) \<Rightarrow> d \<notin> set (take (length h - 90) dates))
             = (case x of (d, v) \<Rightarrow> d \<in> set (drop (length h - 90) dates))"
      using in_drop_iff_notin_take [OF sd(2), of d "length h - 90"] dv by simp
  qed
  show "90 < length h \<Longrightarrow> prune_dates (JObj h) = Some (JObj h', True)"
    using same by (simp add: prune_dates_def fold_delete_property_obj dates_def [symmetric] len Let_def)
  show keys: "map fst h' = filter (\<lambda>d. d \<in> set kept) (map fst h)"
    unfolding h'_def by (induction h) auto
  have sub: "set kept \<subseteq> set (map fst h)"
    unfolding kept_def using sd(3) by (metis set_drop_subset)
  show sk: "set (map fst h') = set kept"
    using keys sub by auto
  show "90 < length h \<Longrightarrow> length h' = 90"
  proof -
    assume big: "90 < length h"
    have "distinct (map fst h')" using keys dist by simp
    then have "length (map fst h') = card (set kept)" using sk by (metis distinct_card)
    also have "\<dots> = length kept"
      using sd(2) by (simp add: kept_def distinct_card)
    also have "\<dots> = 90" using big len by (simp add: kept_def)
    finally show ?thesis by simp
  qed
  show "r \<in> set (map fst h) \<Longrightarrow> r \<notin> set kept \<Longrightarrow> d \<in> set kept \<Longrightarrow> r < d"
  proof -
    assume r: "r \<in> set (map fst h)" "r \<notin> set kept" and d: "d \<in> set kept"
    have "r \<in> set dates" using r(1) sd(3) by simp
    then have "r \<in> set (take (length h - 90) dates)"
      using r(2) in_drop_iff_notin_take [OF sd(2), of r "length h - 90"] by (simp add: kept_def)
    then show "r < d"
      using take_drop_sorted_less [OF sd(1,2)] d by (simp add: kept_def)
  qed
qed

lemma cleanup_fold_other:
  "k \<notin> set ks \<Longrightarrow>
   getItem (snd (foldl (\<lambda>acc k'. cleanup_key P k' acc) acc ks)) k = getItem (snd acc) k"
  by (induction ks arbitrary: acc) (auto simp: cleanup_key_other)

lemma cleanup_fold_quota:
  "quota (snd (foldl (\<lambda>acc k'. cleanup_key P k' acc) acc ks)) = quota (snd acc)"
  by (induction ks arbitrary: acc) (simp_all add: cleanup_key_quota)

lemma cleanup_fold_flag:
  "fst acc \<Longrightarrow> fst (foldl (\<lambda>acc k'. cleanup_key P k' acc) acc ks)"
  by (induction ks arbitrary: acc) (simp_all add: cleanup_key_flag)

lemma historyKeys_split:
  assumes "k \<in> set historyKeys"
  shows "\<exists>post. historyKeys = takeWhile (\<lambda>k'. k' \<noteq> k) historyKeys @ k # post
               \<and> k \<notin> set (takeWhile (\<lambda>k'. k' \<noteq> k) historyKeys) \<and> k \<notin> set post"
proof -
  have d: "distinct historyKeys" by (simp add: historyKeys_eq)
  obtain pre post where sp: "historyKeys = pre @ k # post" "k \<notin> set pre"
    using assms by (meson split_list_first)
  have "takeWhile (\<lambda>k'. k' \<noteq> k) (pre @ k # post) = pre"
    using sp(2) by (induction pre) auto
  then have tw: "takeWhile (\<lambda>k'. k' \<noteq> k) historyKeys = pre"
    using sp(1) by simp
  have "distinct (pre @ k # post)" using d sp(1) by metis
  then have "k \<notin> set post" by simp
  then show ?thesis using sp tw by auto
qed

lemma cleanupOldData_at:
  assumes "k \<in> set historyKeys"
  shows "\<exists>post. k \<notin> set post \<and>
           cleanupOldData P ls =
             foldl (\<lambda>acc k'. cleanup_key P k' acc) (cleanup_key P k (cleanup_before P k ls)) post"
proof -
  obtain post where sp: "historyKeys = takeWhile (\<lambda>k'. k' \<noteq> k) historyKeys @ k # post"
      and np: "k \<notin> set post"
    using historyKeys_split [OF assms] by blast
  have "cleanupOldData P ls =
          foldl (\<lambda>acc k'. cleanup_key P k' acc) (False, ls)
            (takeWhile (\<lambda>k'. k' \<noteq> k) historyKeys @ k # post)"
    unfolding cleanupOldData_def using sp by simp
  then show ?thesis using np by (auto simp: cleanup_before_def)
qed

lemma cleanup_before_item: "getItem (snd (cleanup_before P k ls)) k = getItem ls k"
proof -
  have "k \<notin> set (takeWhile (\<lambda>k'. k' \<noteq> k) historyKeys)"
    by (auto dest: set_takeWhileD)
  then show ?thesis
    unfolding cleanup_before_def using cleanup_fold_other [of k _ P "(False, ls)"] by simp
qed

lemma cleanup_before_quota: "quota (snd (cleanup_before P k ls)) = quota ls"
  unfolding cleanup_before_def using cleanup_fold_quota [of P "(False, ls)"] by simp

text \<open>Date keys: the text \<open>utils.formatDate\<close> writes, and how it sorts.\<close>

lemma of_char_digit_char: "d < 10 \<Longrightarrow> of_char (digit_char d) = 48 + d"
proof -
  assume "d < 10"
  then consider "d = 0" | "d = 1" | "d = 2" | "d = 3" | "d = 4" | "d = 5" | "d = 6" | "d = 7"
    | "d = 8" | "d = 9"
    by (fastforce simp: less_Suc_eq numeral_eq_Suc)
  then show ?thesis by cases (simp_all add: digit_char_def)
qed

lemma digit_char_less: "a < 10 \<Longrightarrow> b < 10 \<Longrightarrow> digit_char a < digit_char b \<longleftrightarrow> a < b"
  by (simp add: less_char_def of_char_digit_char)

lemma digit_char_eq: "a < 10 \<Longrightarrow> b < 10 \<Longrightarrow> digit_char a = digit_char b \<longleftrightarrow> a = b"
  by (metis add_left_cancel of_char_digit_char)

lemma digits_1: "n < 10 \<Longrightarrow> digits n = [digit_char n]"
  by (simp add: digits.simps)

lemma digits_2: "10 \<le> n \<Longrightarrow> n < 100 \<Longrightarrow> digits n = [digit_char (n div 10), digit_char (n mod 10)]"
  by (subst digits.simps) (simp add: digits_1)

lemma digits_3:
  "100 \<le> n \<Longrightarrow> n < 1000 \<Longrightarrow>
   digits n = [digit_char (n div 100), digit_char (n div 10 mod 10), digit_char (n mod 10)]"
  by (subst digits.simps) (simp add: digits_2 div_mult2_eq [symmetric])

lemma digits_4:
  "1000 \<le> n \<Longrightarrow> n < 10000 \<Longrightarrow>
   digits n = [digit_char (n div 1000), digit_char (n div 100 mod 10),
               digit_char (n div 10 mod 10), digit_char (n mod 10)]"
  by (subst digits.simps) (simp add: digits_3 div_mult2_eq [symmetric])

lemma pad2: "n < 100 \<Longrightarrow> padStart 2 CHR ''0'' (digits n) = [digit_char (n div 10), digit_char (n mod 10)]"
proof (cases "n < 10")
  case True
  then show ?thesis by (simp add: padStart_def digits_1 digit_char_def)
next
  case False
  assume "n < 100"
  then show ?thesis using False by (simp add: padStart_def digits_2)
qed

lemma formatDate_digits:
  assumes "1000 \<le> y" "y < 10000" "m < 12" "d < 32"
  shows "formatDate y m d =
           [digit_char (y div 1000), digit_char (y div 100 mod 10), digit_char (y div 10 mod 10),
            digit_char (y mod 10), CHR ''-'',
            digit_char ((m + 1) div 10), digit_char ((m + 1) mod 10), CHR ''-'',
            digit_char (d div 10), digit_char (d mod 10)]"
  using assms by (simp add: formatDate_def digits_4 pad2)

lemma lex_base:
  fixes a b a' b' k :: nat
  assumes "b < k" "b' < k"
  shows "(a < a' \<or> a = a' \<and> b < b') \<longleftrightarrow> k * a + b < k * a' + b'"
proof
  assume "a < a' \<or> a = a' \<and> b < b'"
  then show "k * a + b < k * a' + b'"
  proof
    assume "a < a'"
    then have "a + 1 \<le> a'" by simp
    then have "k * (a + 1) \<le> k * a'" by (rule mult_le_mono2)
    then show ?thesis using assms(1) by simp
  next
    assume "a = a' \<and> b < b'"
    then show ?thesis by simp
  qed
next
  assume l: "k * a + b < k * a' + b'"
  show "a < a' \<or> a = a' \<and> b < b'"
  proof (cases "a < a'")
    case True
    then show ?thesis by simp
  next
    case False
    then have "a' \<le> a" by simp
    then have "k * a' \<le> k * a" by (rule mult_le_mono2)
    show ?thesis
    proof (cases "a = a'")
      case True
      then show ?thesis using l by simp
    next
      case False
      then have "a' + 1 \<le> a" using \<open>a' \<le> a\<close> by simp
      then have "k * (a' + 1) \<le> k * a" by (rule mult_le_mono2)
      then show ?thesis using l assms(2) by simp
    qed
  qed
qed

lemma split_base:
  fixes n n' k :: nat
  assumes "0 < k"
  shows "(n div k < n' div k \<or> n div k = n' div k \<and> n mod k < n' mod k) \<longleftrightarrow> n < n'"
    and "(n div k = n' div k \<and> n mod k = n' mod k) \<longleftrightarrow> n = n'"
proof -
  have "(n div k < n' div k \<or> n div k = n' div k \<and> n mod k < n' mod k)
          \<longleftrightarrow> k * (n div k) + n mod k < k * (n' div k) + n' mod k"
    using assms by (intro lex_base) simp_all
  then show "(n div k < n' div k \<or> n div k = n' div k \<and> n mod k < n' mod k) \<longleftrightarrow> n < n'"
    by simp
  show "(n div k = n' div k \<and> n mod k = n' mod k) \<longleftrightarrow> n = n'"
    by (metis div_mult_mod_eq)
qed

lemma two_digits_less:
  assumes "n < 100" "n' < 100"
  shows "[digit_char (n div 10), digit_char (n mod 10)]
           < [digit_char (n' div 10), digit_char (n' mod 10)] \<longleftrightarrow> n < n'"
proof -
  have b: "n div 10 < 10" "n mod 10 < 10" "n' div 10 < 10" "n' mod 10 < 10"
    using assms by simp_all
  show ?thesis
    using b split_base(1) [of 10 n n'] by (simp add: digit_char_less digit_char_eq)
qed

lemma two_digits_eq:
  assumes "n < 100" "n' < 100"
  shows "[digit_char (n div 10), digit_char (n mod 10)]
           = [digit_char (n' div 10), digit_char (n' mod 10)] \<longleftrightarrow> n = n'"
proof -
  have b: "n div 10 < 10" "n mod 10 < 10" "n' div 10 < 10" "n' mod 10 < 10"
    using assms by simp_all
  show ?thesis
    using b split_base(2) [of 10 n n'] by (simp add: digit_char_eq)
qed

lemma append_less_same_length:
  fixes xs :: "('a :: linorder) list"
  shows "length xs = length xs' \<Longrightarrow> xs @ ys < xs' @ ys' \<longleftrightarrow> xs < xs' \<or> (xs = xs' \<and> ys < ys')"
  by (induction xs xs' rule: list_induct2) auto

lemma hundred_parts:
  fixes y :: nat
  shows "y div 1000 = y div 100 div 10" "y div 100 mod 10 = y div 100 mod 10"
    "y div 10 mod 10 = y mod 100 div 10" "y mod 10 = y mod 100 mod 10"
proof -
  show "y div 1000 = y div 100 div 10" by (simp add: div_mult2_eq [symmetric])
  have m: "y mod 100 = 10 * (y div 10 mod 10) + y mod 10"
    using mod_mult2_eq [of y 10 10] by simp
  show "y div 10 mod 10 = y mod 100 div 10" unfolding m by simp
  show "y mod 10 = y mod 100 mod 10" unfolding m by simp
qed simp

lemma formatDate_split:
  assumes "1000 \<le> y" "y < 10000" "m < 12" "d < 32"
  shows "formatDate y m d =
           [digit_char (y div 100 div 10), digit_char (y div 100 mod 10)]
           @ [digit_char (y mod 100 div 10), digit_char (y mod 100 mod 10)]
           @ ''-'' @ [digit_char ((m + 1) div 10), digit_char ((m + 1) mod 10)]
           @ ''-'' @ [digit_char (d div 10), digit_char (d mod 10)]"
  using assms hundred_parts [of y] by (simp add: formatDate_def digits_4 pad2)

lemma date_text_less:
  fixes A :: string
  assumes "length A = length A'" "length B = length B'" "length C = length C'"
  shows "A @ B @ ''-'' @ C @ ''-'' @ D < A' @ B' @ ''-'' @ C' @ ''-'' @ D'
           \<longleftrightarrow> A < A' \<or> (A = A' \<and> (B < B' \<or> (B = B' \<and> (C < C' \<or> (C = C' \<and> D < D')))))"
proof -
  have dash: "\<And>X X' :: string. ''-'' @ X < ''-'' @ X' \<longleftrightarrow> X < X'" by simp
  have c: "C @ ''-'' @ D < C' @ ''-'' @ D' \<longleftrightarrow> C < C' \<or> (C = C' \<and> D < D')"
    using append_less_same_length [OF assms(3), of "''-'' @ D" "''-'' @ D'"] dash by simp
  have b: "B @ ''-'' @ C @ ''-'' @ D < B' @ ''-'' @ C' @ ''-'' @ D'
             \<longleftrightarrow> B < B' \<or> (B = B' \<and> (C < C' \<or> (C = C' \<and> D < D')))"
    using append_less_same_length [OF assms(2), of "''-'' @ C @ ''-'' @ D" "''-'' @ C' @ ''-'' @ D'"]
      dash [of "C @ ''-'' @ D" "C' @ ''-'' @ D'"] c
    by simp
  show ?thesis
    using append_less_same_length [OF assms(1), of "B @ ''-'' @ C @ ''-'' @ D" "B' @ ''-'' @ C' @ ''-'' @ D'"] b
    by simp
qed

text \<open>
  For four-digit years the text of a date sorts (by code units, as \<open>Array.prototype.sort\<close>
  does) the way the date does in the calendar.
\<close>

lemma formatDate_order:
  assumes "1000 \<le> y" "y < 10000" "m < 12" "d < 32"
    and "1000 \<le> y'" "y' < 10000" "m' < 12" "d' < 32"
  shows "formatDate y m d < formatDate y' m' d'
           \<longleftrightarrow> y < y' \<or> (y = y' \<and> (m < m' \<or> (m = m' \<and> d < d')))"
proof -
  have b: "y div 100 < 100" "y mod 100 < 100" "m + 1 < 100" "d < 100"
    "y' div 100 < 100" "y' mod 100 < 100" "m' + 1 < 100" "d' < 100"
    using assms by simp_all
  have "formatDate y m d < formatDate y' m' d' \<longleftrightarrow>
          (y div 100 < y' div 100 \<or> y div 100 = y' div 100 \<and>
          (y mod 100 < y' mod 100 \<or> y mod 100 = y' mod 100 \<and>
          (m + 1 < m' + 1 \<or> m + 1 = m' + 1 \<and> d < d')))"
    unfolding formatDate_split [OF assms(1-4)] formatDate_split [OF assms(5-8)]
    by (subst date_text_less)
       (simp_all only: length_Cons list.size two_digits_less two_digits_eq b)
  also have "\<dots> \<longleftrightarrow> y < y' \<or> (y = y' \<and> (m < m' \<or> (m = m' \<and> d < d')))"
    using split_base [of 100 y y'] by auto
  finally show ?thesis .
qed

text \<open>
  Claim C6 (90-day retention). Let one of the three history keys hold text that parses to
  an object with distinct member names. With at most 90 names, \<open>cleanupOldData\<close> leaves the
  stored text as it is. With more than 90, the pruned object keeps exactly 90 members,
  those whose names are the 90 last in sorted order, and every removed name sorts before
  every retained one (for \<open>YYYY-MM-DD\<close> names: the 90 most recent dates are kept, the oldest
  go); when the store accepts the write-back, the key then holds the text of the pruned
  object and \<open>cleanupOldData\<close> returns true.
\<close>

theorem cleanupOldData_keeps_90_most_recent:
  fixes h :: "(string \<times> json) list"
  assumes key: "k = STORAGE_KEYS_HISTORY_PREFIX @ ''water''
                \<or> k = STORAGE_KEYS_HISTORY_PREFIX @ ''protein'' \<or> k = ''workout_history''"
    and stored: "getItem ls k = Some historyData" "historyData \<noteq> []"
      "JSON_parse historyData = Some (JObj h)"
    and dist: "distinct (map fst h)"
  defines "kept \<equiv> drop (length h - 90) (sort (map fst h))"
  defines "pruned \<equiv> filter (\<lambda>(date, entries). date \<in> set kept) h"
  defines "result \<equiv> cleanupOldData JSON_parse ls"
  shows "(length h \<le> 90 \<longrightarrow> getItem (snd result) k = Some historyData)
       \<and> (90 < length h \<longrightarrow>
            length pruned = 90 \<and> set (map fst pruned) = set kept
            \<and> (\<forall>r \<in> set (map fst h) - set kept. \<forall>d \<in> set kept. r < d)
            \<and> (usage_of (AList.update k (stringify (JObj pruned))
                            (items (snd (cleanup_before JSON_parse k ls)))) \<le> quota ls
                 \<longrightarrow> fst result \<and> getItem (snd result) k = Some (stringify (JObj pruned))))"
proof -
  have mem: "k \<in> set historyKeys" and nh: "k \<noteq> ''habits_data''"
    using key by (auto simp: historyKeys_eq STORAGE_KEYS_HISTORY_PREFIX_def)
  obtain post where np: "k \<notin> set post"
      and run: "result = foldl (\<lambda>acc k'. cleanup_key JSON_parse k' acc)
                           (cleanup_key JSON_parse k (cleanup_before JSON_parse k ls)) post"
    using cleanupOldData_at [OF mem, of JSON_parse ls] unfolding result_def by blast
  obtain flag0 ls0 where before: "cleanup_before JSON_parse k ls = (flag0, ls0)"
    by (cases "cleanup_before JSON_parse k ls")
  have item0: "getItem ls0 k = Some historyData"
    using cleanup_before_item [of JSON_parse k ls] before stored(1) by simp
  have q0: "quota ls0 = quota ls"
    using cleanup_before_quota [of JSON_parse k ls] before by simp
  have step: "cleanup_key JSON_parse k (flag0, ls0) = cleanup_date_history k (JObj h) (flag0, ls0)"
    using item0 stored(2,3) nh by (simp add: cleanup_key_def)
  have final_item: "getItem (snd result) k = getItem (snd (cleanup_key JSON_parse k (flag0, ls0))) k"
    unfolding run before using cleanup_fold_other [OF np] by simp
  have small: "length h \<le> 90 \<longrightarrow> getItem (snd result) k = Some historyData"
    using final_item step item0 prune_dates_object(1) [OF dist]
    by (simp add: cleanup_date_history_def)
  have big: "getItem (snd result) k = Some (stringify (JObj pruned)) \<and> fst result"
    if l: "90 < length h"
      and fits: "usage_of (AList.update k (stringify (JObj pruned)) (items ls0)) \<le> quota ls"
  proof -
    have pd: "prune_dates (JObj h) = Some (JObj pruned, True)"
      using prune_dates_object(2) [OF dist l] by (simp add: pruned_def kept_def)
    have st: "cleanup_key JSON_parse k (flag0, ls0)
                = (True, ls0\<lparr>items := AList.update k (stringify (JObj pruned)) (items ls0)\<rparr>)"
      using step pd fits q0 by (simp add: cleanup_date_history_def setItem_accepted)
    have "getItem (snd result) k = Some (stringify (JObj pruned))"
      using final_item st by (simp add: getItem_def update_conv')
    moreover have "fst result"
      unfolding run before st by (rule cleanup_fold_flag) simp
    ultimately show ?thesis by simp
  qed
  have props: "90 < length h \<longrightarrow> length pruned = 90 \<and> set (map fst pruned) = set kept
                 \<and> (\<forall>r \<in> set (map fst h) - set kept. \<forall>d \<in> set kept. r < d)"
    using prune_dates_object(3,5,6) [OF dist] unfolding pruned_def kept_def by blast
  show ?thesis using small big props before by simp
qed

text \<open>The size of a pruned object's text, for the worked example.\<close>

lemma example_history_keys:
  "map fst example_history = example_dates" "length example_history = 120"
  by (simp_all add: example_history_def example_dates_def comp_def)

lemma example_dates_distinct: "distinct example_dates"
  by (simp add: example_dates_def formatDate_def padStart_def digits.simps digit_char_def upt_rec)

lemma length_join_Cons:
  "length (join sep (x # xs)) = length x + (if xs = [] then 0 else length sep + length (join sep xs))"
  by (cases xs) simp_all

lemma stringify_members_Nil_iff [simp]: "stringify_members fs = [] \<longleftrightarrow> fs = []"
  by (cases fs) auto

lemma length_members_filter:
  "length (join sep (stringify_members (filter P fs))) \<le> length (join sep (stringify_members fs))"
proof (induction fs)
  case Nil
  show ?case by simp
next
  case (Cons kv fs)
  obtain k v where kv: "kv = (k, v)" by (cases kv)
  show ?case
  proof (cases "P kv")
    case True
    then show ?thesis
      using Cons.IH kv by (auto simp: length_join_Cons)
  next
    case False
    then show ?thesis
      using Cons.IH kv by (simp add: length_join_Cons)
  qed
qed

lemma length_stringify_filter:
  "length (stringify (JObj (filter P fs))) \<le> length (stringify (JObj fs))"
  using length_members_filter [of "'',''" P fs] by simp

lemma example_history_size: "length (stringify (JObj example_history)) \<le> 2000"
  by (simp add: example_history_def example_dates_def formatDate_def padStart_def digits.simps digit_char_def
      upt_rec quote_def escape_char_def)

theorem cleanupOldData_keeps_90_most_recent_witness:
  "getItem example_store ''workout_history'' = Some (stringify (JObj example_history))
   \<and> length example_history = 120
   \<and> fst (cleanupOldData example_parse example_store)
   \<and> getItem (snd (cleanupOldData example_parse example_store)) ''workout_history''
       = Some (stringify (JObj (filter (\<lambda>(date, entries). date \<in> set (drop 30 (sort example_dates)))
                                  example_history)))
   \<and> length (filter (\<lambda>(date, entries). date \<in> set (drop 30 (sort example_dates))) example_history) = 90"
proof -
  let ?pruned = "filter (\<lambda>(date, entries). date \<in> set (drop 30 (sort example_dates))) example_history"
  have k: "''workout_history'' = STORAGE_KEYS_HISTORY_PREFIX @ ''water''
           \<or> ''workout_history'' = STORAGE_KEYS_HISTORY_PREFIX @ ''protein''
           \<or> ''workout_history'' = ''workout_history''"
    by simp
  have g: "getItem example_store ''workout_history'' = Some (stringify (JObj example_history))"
    by (simp add: example_store_def getItem_def)
  have ne: "stringify (JObj example_history) \<noteq> []" by simp
  have p: "example_parse (stringify (JObj example_history)) = Some (JObj example_history)"
    by (simp add: example_parse_def)
  have d: "distinct (map fst example_history)"
    using example_dates_distinct by (simp add: example_history_keys)
  have before: "cleanup_before example_parse ''workout_history'' example_store = (False, example_store)"
    by (simp add: cleanup_before_def historyKeys_def cleanup_key_def getItem_def example_store_def
        STORAGE_KEYS_HISTORY_PREFIX_def)
  have "length (stringify (JObj ?pruned)) \<le> 2000"
    using length_stringify_filter [of _ example_history] example_history_size
    by (rule order_trans)
  then have fits: "usage_of (AList.update ''workout_history'' (stringify (JObj ?pruned))
                     (items (snd (cleanup_before example_parse ''workout_history'' example_store))))
                   \<le> quota example_store"
    unfolding before by (simp add: example_store_def)
  show ?thesis
    using g fits
      cleanupOldData_keeps_90_most_recent
        [where k = "''workout_history''" and ls = example_store and JSON_parse = example_parse
           and historyData = "stringify (JObj example_history)" and h = example_history,
         OF k g ne p d]
    by (simp add: example_history_keys)
qed

end
